theory Spec2Isabelle
  imports Complex_Main "HOL-Library.Word"
begin

section \<open>Lepton viewer: a shallow embedding of \<^verbatim>\<open>lepton_viewer_rpi3.py\<close>\<close>

text \<open>
  The script is modelled function by function. Python floats (times, temperatures, the
  interpolation and gain arithmetic) are idealised as exact reals; NumPy \<^verbatim>\<open>uint8\<close> is
  \<open>8 word\<close>. The NumPy and OpenCV functions whose result the script computes with
  (\<^verbatim>\<open>linspace\<close>, \<^verbatim>\<open>astype\<close>, \<^verbatim>\<open>reshape\<close>, \<^verbatim>\<open>minMaxLoc\<close>, \<^verbatim>\<open>convertScaleAbs\<close>) follow their
  documented behaviour. The other collaborators (libuvc, the colour conversions and
  colormaps of OpenCV, its \<^verbatim>\<open>resize\<close>, the display, the operating system) appear as inputs
  of the functions that call them and as events appended to a trace. Log messages are
  shortened to their fixed part, and debug messages are left out but for two.
\<close>

subsection \<open>Configuration\<close>

definition CAM_WIDTH :: nat where "CAM_WIDTH = 160"
definition CAM_HEIGHT :: nat where "CAM_HEIGHT = 120"
definition BUF_SIZE :: nat where "BUF_SIZE = 2"
definition CPU_GOVERNOR_SAVE :: string where "CPU_GOVERNOR_SAVE = ''powersave''"
definition CPU_GOVERNOR_RUN :: string where "CPU_GOVERNOR_RUN = ''ondemand''"
definition CPU_TEMP_SHUTDOWN_CHECK_INTERVAL_S :: real where "CPU_TEMP_SHUTDOWN_CHECK_INTERVAL_S = 30"
definition CPU_TEMP_LOG_INTERVAL_S :: real where "CPU_TEMP_LOG_INTERVAL_S = 300"
definition CPU_TEMP_SHUTDOWN_THRESHOLD_C :: real where "CPU_TEMP_SHUTDOWN_THRESHOLD_C = 75"

subsection \<open>Values, errors and events\<close>

type_synonym uint8 = "8 word"

datatype dtype = UInt8 | OtherDtype

text \<open>A NumPy array of bytes: its shape, element type, the C-contiguity flag and the
  elements in row-major order.\<close>

record ndarray =
  nd_shape :: "nat list"
  nd_dtype :: dtype
  nd_contiguous :: bool
  nd_flat :: "uint8 list"

definition nd_size :: "ndarray \<Rightarrow> nat" where
  "nd_size a = prod_list (nd_shape a)"

datatype error =
    ValueError string
  | IndexError
  | RuntimeError string
  | OverflowError
  | QueueEmpty
  | Cv2Error
  | OtherException

datatype level = DEBUG | INFO | WARNING | ERROR | CRITICAL

type_synonym bgr = "uint8 \<times> uint8 \<times> uint8"

datatype picture = BlackScreen | Picture "bgr list"

datatype event =
    Log level string
  | SetGovernor string
  | StartStreaming
  | StopStreaming
  | ShutdownRequest
  | Sleep real
  | Backlight bool
  | Blit picture
  | GetTimeout real
  | CloseCamera

subsection \<open>The gradient builder: \<^verbatim>\<open>create_custom_lut\<close>\<close>

text \<open>\<^verbatim>\<open>np.linspace(start, stop, num)\<close> on vectors: \<open>num\<close> rows, row \<open>i\<close> being
  \<open>start + i * (stop - start) / (num - 1)\<close>, the last row set to \<open>stop\<close> itself; a single
  row is \<open>start\<close>.\<close>

definition linspace :: "real list \<Rightarrow> real list \<Rightarrow> nat \<Rightarrow> real list list" where
  "linspace start stop num =
     map (\<lambda>i. if 1 < num \<and> i = num - 1 then stop
              else if num - 1 = 0 then start
              else map2 (\<lambda>a b. a + real i * ((b - a) / real (num - 1))) start stop)
         [0..<num]"

text \<open>\<^verbatim>\<open>.astype(np.uint8)\<close> of a float: truncation towards zero, then the low byte.\<close>

definition astype_uint8 :: "real \<Rightarrow> uint8" where
  "astype_uint8 x = word_of_int (if 0 \<le> x then \<lfloor>x\<rfloor> else \<lceil>x\<rceil>)"

definition astype_rows :: "real list list \<Rightarrow> uint8 list list" where
  "astype_rows rows = map (map astype_uint8) rows"

text \<open>A byte as a float.\<close>

definition float_of :: "uint8 \<Rightarrow> real" where
  "float_of b = real_of_int (uint b)"

definition as_float :: "uint8 list \<Rightarrow> real list" where
  "as_float row = map float_of row"

text \<open>A two-dimensional array of bytes given by its rows (each row a colour), as an
  array of shape \<open>(len, 3)\<close>.\<close>

definition of_rows :: "uint8 list list \<Rightarrow> ndarray" where
  "of_rows rows = \<lparr>nd_shape = [length rows, 3], nd_dtype = UInt8, nd_contiguous = True,
                    nd_flat = concat rows\<rparr>"

text \<open>\<^verbatim>\<open>arr.reshape(shape)\<close>: NumPy raises \<^verbatim>\<open>ValueError\<close> unless the number of
  elements is the product of the new shape.\<close>

definition reshape :: "nat list \<Rightarrow> ndarray \<Rightarrow> error + ndarray" where
  "reshape new_shape a =
     (if prod_list new_shape = length (nd_flat a)
      then Inr (a\<lparr>nd_shape := new_shape\<rparr>)
      else Inl (ValueError ''cannot reshape array''))"

definition ascontiguousarray :: "ndarray \<Rightarrow> ndarray" where
  "ascontiguousarray a = a\<lparr>nd_contiguous := True\<rparr>"

definition gradient_colors :: "string \<Rightarrow> (real list \<times> real list) option" where
  "gradient_colors color =
     (if color = ''red'' then Some ([64, 0, 0], [255, 0, 0])
      else if color = ''green'' then Some ([0, 64, 0], [0, 255, 0])
      else if color = ''blue'' then Some ([0, 0, 64], [0, 0, 255])
      else None)"

definition black_to_white :: "nat \<Rightarrow> uint8 list list" where
  "black_to_white n = astype_rows (linspace [0, 0, 0] [255, 255, 255] n)"

definition color_gradient :: "real list \<times> real list \<Rightarrow> nat \<Rightarrow> uint8 list list" where
  "color_gradient g n = astype_rows (linspace (fst g) (snd g) n)"

text \<open>Lines 233 to 245: the two segments and their concatenation, with the warning of the
  adjusting branch.\<close>

definition gradient_segments ::
  "real list \<times> real list \<Rightarrow> int \<Rightarrow> event list \<times> uint8 list list" where
  "gradient_segments g color_gradient_step =
     (let BLACK_TO_WHITE_STEP = 256 - color_gradient_step in
      if BLACK_TO_WHITE_STEP \<le> 0
      then ([Log WARNING ''Color gradient step is too large. Adjusting.''],
            color_gradient g 256)
      else ([], black_to_white (nat BLACK_TO_WHITE_STEP)
                @ color_gradient g (nat color_gradient_step)))"

text \<open>Lines 250 to 252: the fallback that interpolates the first and last entry to 256
  entries.\<close>

definition ensure_256 :: "uint8 list list \<Rightarrow> error + event list \<times> uint8 list list" where
  "ensure_256 custom_colors =
     (if length custom_colors \<noteq> 256
      then (case custom_colors of
              [] \<Rightarrow> Inl IndexError
            | _ \<Rightarrow> Inr ([Log WARNING ''Custom LUT concatenation: interpolating to 256.''],
                       astype_rows (linspace (as_float (hd custom_colors))
                                             (as_float (last custom_colors)) 256)))
      else Inr ([], custom_colors))"

definition create_custom_lut :: "string \<Rightarrow> int \<Rightarrow> error + event list \<times> ndarray" where
  "create_custom_lut color color_gradient_step =
     (if color_gradient_step \<le> 0 \<or> color_gradient_step \<ge> 256
      then Inl (ValueError ''color_gradient_step must be between 1 and 255.'')
      else case gradient_colors color of
        None \<Rightarrow> Inl (ValueError ''Unsupported color for LUT creation.'')
      | Some g \<Rightarrow>
          (case gradient_segments g color_gradient_step of (log1, custom_colors) \<Rightarrow>
           case ensure_256 custom_colors of
             Inl e \<Rightarrow> Inl e
           | Inr (log2, custom_colors') \<Rightarrow>
               (case reshape [256, 1, 3] (of_rows custom_colors') of
                  Inl e \<Rightarrow> Inl e
                | Inr custom_lut \<Rightarrow>
                    Inr (log1 @ log2 @ [Log DEBUG ''Created custom LUT''],
                         ascontiguousarray custom_lut))))"

text \<open>Entry \<open>i\<close> of a table: the three bytes of its colour.\<close>

definition lut_entry :: "ndarray \<Rightarrow> nat \<Rightarrow> uint8 list" where
  "lut_entry t i = take 3 (drop (3 * i) (nd_flat t))"

definition warnings :: "event list \<Rightarrow> event list" where
  "warnings evs = filter (\<lambda>e. case e of Log WARNING _ \<Rightarrow> True | _ \<Rightarrow> False) evs"


subsection \<open>The viewer object and the module's frame queue\<close>

datatype cv2_colormap =
  COLORMAP_HOT | COLORMAP_BONE | COLORMAP_COOL | COLORMAP_OCEAN | COLORMAP_VIRIDIS

text \<open>An entry of \<^verbatim>\<open>self.colormaps\<close> is an OpenCV colormap id or a NumPy table; the
  script tells them apart with \<^verbatim>\<open>isinstance(..., np.ndarray)\<close>.\<close>

datatype colormap = Builtin cv2_colormap | Custom ndarray

text \<open>The fields of \<^verbatim>\<open>LeptonViewer\<close>; device and pin objects are present or absent.
  The module-level \<^verbatim>\<open>frame_queue\<close> (oldest frame first) and the trace of effects on the
  collaborators (oldest first) are carried in the same record.\<close>

record viewer =
  disp :: bool
  backlight :: bool
  buttonA :: bool
  buttonB :: bool
  uvc_ctx :: bool
  uvc_dev :: bool
  uvc_devh :: bool
  is_running :: bool
  display_active :: bool
  stream_is_active :: bool
  frame_count :: nat
  start_time :: real
  last_display_time :: real
  last_temp_shutdown_check_time :: real
  last_temp_log_time :: real
  last_button_a_time :: real
  last_button_b_time :: real
  colormaps :: "(string \<times> colormap) list"
  colormap_index :: nat
  current_colormap :: colormap
  current_colormap_name :: string
  frame_queue :: "ndarray list"
  trace :: "event list"

definition emit :: "event \<Rightarrow> viewer \<Rightarrow> viewer" where
  "emit e s = s\<lparr>trace := trace s @ [e]\<rparr>"

definition emits :: "event list \<Rightarrow> viewer \<Rightarrow> viewer" where
  "emits es s = s\<lparr>trace := trace s @ es\<rparr>"

definition logging :: "level \<Rightarrow> string \<Rightarrow> viewer \<Rightarrow> viewer" where
  "logging lvl msg s = emit (Log lvl msg) s"

text \<open>\<^verbatim>\<open>add_custom_luts\<close>: the three gradients of step 64; the first exception ends the
  method with an error report.\<close>

definition add_custom_lut :: "string \<Rightarrow> string \<Rightarrow> viewer \<Rightarrow> error + viewer" where
  "add_custom_lut name color s =
     (case create_custom_lut color 64 of
        Inl e \<Rightarrow> Inl e
      | Inr (msgs, lut) \<Rightarrow>
          Inr (logging INFO (''Added custom LUT: '' @ name)
                 ((emits msgs s)\<lparr>colormaps := colormaps s @ [(name, Custom lut)]\<rparr>)))"

definition add_custom_luts :: "viewer \<Rightarrow> viewer" where
  "add_custom_luts s =
     (case add_custom_lut ''RED_GRADIENT'' ''red'' s of
        Inl e \<Rightarrow> logging ERROR ''Error adding custom LUTs'' s
      | Inr s1 \<Rightarrow>
     (case add_custom_lut ''GREEN_GRADIENT'' ''green'' s1 of
        Inl e \<Rightarrow> logging ERROR ''Error adding custom LUTs'' s1
      | Inr s2 \<Rightarrow>
     (case add_custom_lut ''BLUE_GRADIENT'' ''blue'' s2 of
        Inl e \<Rightarrow> logging ERROR ''Error adding custom LUTs'' s2
      | Inr s3 \<Rightarrow> s3)))"

text \<open>\<^verbatim>\<open>LeptonViewer.__init__\<close>: the fields as first assigned (\<open>now\<close> is the value of
  \<^verbatim>\<open>time.time()\<close>; the colormap fields, assigned last, hold the first built-in entry), then
  the gradients, then the selection of entry 0.\<close>

definition builtin_colormaps :: "(string \<times> colormap) list" where
  "builtin_colormaps =
     [(''HOT'', Builtin COLORMAP_HOT), (''BONE'', Builtin COLORMAP_BONE),
      (''COOL'', Builtin COLORMAP_COOL), (''OCEAN'', Builtin COLORMAP_OCEAN),
      (''VIRIDIS'', Builtin COLORMAP_VIRIDIS)]"

definition blank_viewer :: "real \<Rightarrow> viewer" where
  "blank_viewer now =
     \<lparr>disp = False, backlight = False, buttonA = False, buttonB = False,
      uvc_ctx = False, uvc_dev = False, uvc_devh = False,
      is_running = True, display_active = True, stream_is_active = False,
      frame_count = 0, start_time = now, last_display_time = 0,
      last_temp_shutdown_check_time = 0, last_temp_log_time = 0,
      last_button_a_time = 0, last_button_b_time = 0,
      colormaps = builtin_colormaps, colormap_index = 0,
      current_colormap = Builtin COLORMAP_HOT, current_colormap_name = ''HOT'',
      frame_queue = [], trace = []\<rparr>"

definition init_viewer :: "real \<Rightarrow> viewer" where
  "init_viewer now =
     (let s = add_custom_luts (blank_viewer now)
      in s\<lparr>colormap_index := 0,
            current_colormap := snd (colormaps s ! 0),
            current_colormap_name := fst (colormaps s ! 0)\<rparr>)"

subsection \<open>Loading external tables: \<^verbatim>\<open>load_custom_luts\<close>\<close>

text \<open>What \<^verbatim>\<open>ast.literal_eval\<close> makes of a file: the elements of a list are tuples or
  something else, and the components of a tuple are integers (booleans among them),
  finite floats, or other values, given by their text. A file can also be unreadable, lack
  the brackets, or fail to parse.\<close>

datatype pyval = PyInt int | PyFloat real | PyObject string

datatype pyelem = PyTuple "pyval list" | PyOther

datatype lut_text = Unreadable | NotBracketed | BadLiteral | NonList | PyList "pyelem list"

text \<open>Line 301: \<^verbatim>\<open>isinstance(c, tuple) and len(c) == 3\<close>, whatever the components are.\<close>

definition is_tuple3 :: "pyelem \<Rightarrow> bool" where
  "is_tuple3 c = (case c of PyTuple xs \<Rightarrow> length xs = 3 | PyOther \<Rightarrow> False)"

definition tuple_items :: "pyelem \<Rightarrow> pyval list" where
  "tuple_items c = (case c of PyTuple xs \<Rightarrow> xs | PyOther \<Rightarrow> [])"

text \<open>\<^verbatim>\<open>np.array(lut_values, dtype=np.uint8)\<close> converts the components one by one, in
  order. An integer in \<open>0..255\<close> is that byte, and a float strictly between \<open>-1\<close> and \<open>256\<close>
  is cut to its integral part. What NumPy makes of any other component depends on its
  version and on the platform (\<^verbatim>\<open>OverflowError\<close> for an integer beyond the C long range
  and, from NumPy 2 on, for every integer outside \<open>0..255\<close>; the low byte otherwise;
  \<^verbatim>\<open>ValueError\<close> or \<^verbatim>\<open>TypeError\<close> for most other values): the argument \<open>np_cast\<close> gives
  it. The first exception ends the conversion.\<close>

definition to_uint8 :: "(pyval \<Rightarrow> error + uint8) \<Rightarrow> pyval \<Rightarrow> error + uint8" where
  "to_uint8 np_cast v =
     (case v of
        PyInt k \<Rightarrow> if 0 \<le> k \<and> k \<le> 255 then Inr (word_of_int k) else np_cast v
      | PyFloat x \<Rightarrow> if - 1 < x \<and> x < 256 then Inr (astype_uint8 x) else np_cast v
      | PyObject r \<Rightarrow> np_cast v)"

fun collect :: "('e + 'a) list \<Rightarrow> 'e + 'a list" where
  "collect [] = Inr []"
| "collect (x # xs) =
     (case x of
        Inl e \<Rightarrow> Inl e
      | Inr a \<Rightarrow> (case collect xs of Inl e \<Rightarrow> Inl e | Inr as \<Rightarrow> Inr (a # as)))"

definition np_array_uint8 ::
  "(pyval \<Rightarrow> error + uint8) \<Rightarrow> pyval list list \<Rightarrow> error + uint8 list list" where
  "np_array_uint8 np_cast lut_values =
     collect (map (\<lambda>c. collect (map (to_uint8 np_cast) c)) lut_values)"

text \<open>The handlers of lines 361 and 362 for an exception raised while a file is
  processed: \<^verbatim>\<open>ValueError\<close> is reported as a parsing error, anything else as unexpected; the
  file is skipped.\<close>

definition report_exception :: "error \<Rightarrow> viewer \<Rightarrow> viewer" where
  "report_exception e s =
     (case e of
        ValueError m \<Rightarrow> logging ERROR ''Error parsing LUT file. Skipping.'' s
      | _ \<Rightarrow> logging ERROR ''Unexpected error processing LUT file. Skipping.'' s)"

text \<open>\<^verbatim>\<open>lut_array.reshape((original_length, 1, 3))\<close> of an \<open>(n, 3)\<close> array.\<close>

definition lut_image_of :: "uint8 list list \<Rightarrow> ndarray" where
  "lut_image_of lut_array = (of_rows lut_array)\<lparr>nd_shape := [length lut_array, 1, 3]\<rparr>"

text \<open>Lines 306 to 357. \<open>cv2_resize\<close> stands for
  \<^verbatim>\<open>cv2.resize(_, (1, 256), interpolation=cv2.INTER_LINEAR)\<close>.\<close>

definition resize_branch :: "(ndarray \<Rightarrow> error + ndarray) \<Rightarrow> uint8 list list \<Rightarrow> error + ndarray" where
  "resize_branch cv2_resize lut_array =
     (case cv2_resize (lut_image_of lut_array) of
        Inl e \<Rightarrow> Inl e
      | Inr lut_resized \<Rightarrow>
          (case reshape [256, 1, 3] lut_resized of
             Inl e \<Rightarrow> Inl e
           | Inr lut_final \<Rightarrow> Inr (ascontiguousarray lut_final)))"

definition final_validation :: "string \<Rightarrow> nat \<Rightarrow> ndarray \<Rightarrow> viewer \<Rightarrow> viewer" where
  "final_validation lut_name original_length lut_final s =
     (if nd_shape lut_final = [256, 1, 3]
      then (let is_contig_ok =
                  (if original_length \<noteq> 256 then nd_contiguous lut_final else True)
            in if is_contig_ok
               then logging INFO ''Successfully loaded and processed custom LUT''
                      (s\<lparr>colormaps := colormaps s @ [(lut_name, Custom lut_final)]\<rparr>)
               else logging WARNING ''Resized LUT was non-contiguous. Skipping.'' s)
      else logging WARNING ''Processed LUT resulted in invalid shape. Skipping.'' s)"

definition load_lut_values ::
  "(pyval \<Rightarrow> error + uint8) \<Rightarrow> (ndarray \<Rightarrow> error + ndarray) \<Rightarrow> string \<Rightarrow> pyval list list
     \<Rightarrow> viewer \<Rightarrow> viewer" where
  "load_lut_values np_cast cv2_resize lut_name lut_values s =
     (case np_array_uint8 np_cast lut_values of
        Inl e \<Rightarrow> report_exception e s
      | Inr lut_array \<Rightarrow>
          (let original_length = length lut_array
           in if original_length = 0
              then logging WARNING ''LUT file parsed but is empty. Skipping.'' s
              else if original_length = 256
              then (case reshape [256, 1, 3] (of_rows lut_array) of
                      Inl e \<Rightarrow> logging ERROR ''Error reshaping LUT. Skipping.'' s
                    | Inr lut_final \<Rightarrow>
                        final_validation lut_name original_length lut_final s)
              else (case resize_branch cv2_resize lut_array of
                      Inl e \<Rightarrow>
                        logging ERROR ''Error resizing LUT. Skipping.''
                          (logging INFO ''LUT needs resizing to 256 entries.'' s)
                    | Inr lut_final \<Rightarrow>
                        final_validation lut_name original_length lut_final
                          (logging INFO ''LUT needs resizing to 256 entries.'' s))))"

text \<open>One \<^verbatim>\<open>.lut\<close> file of the directory, with the name derived from its file name.\<close>

definition load_lut_file ::
  "(pyval \<Rightarrow> error + uint8) \<Rightarrow> (ndarray \<Rightarrow> error + ndarray) \<Rightarrow> string \<times> lut_text
     \<Rightarrow> viewer \<Rightarrow> viewer" where
  "load_lut_file np_cast cv2_resize f s =
     (case snd f of
        Unreadable \<Rightarrow> logging ERROR ''Could not open file. Skipping.'' s
      | NotBracketed \<Rightarrow> s
      | BadLiteral \<Rightarrow> logging ERROR ''Error parsing LUT file. Skipping.'' s
      | NonList \<Rightarrow> s
      | PyList lut_values \<Rightarrow>
          if \<not> list_all is_tuple3 lut_values then s
          else load_lut_values np_cast cv2_resize (fst f) (map tuple_items lut_values) s)"

definition load_custom_luts ::
  "(pyval \<Rightarrow> error + uint8) \<Rightarrow> (ndarray \<Rightarrow> error + ndarray) \<Rightarrow> (string \<times> lut_text) list
     \<Rightarrow> viewer \<Rightarrow> viewer" where
  "load_custom_luts np_cast cv2_resize files s =
     logging INFO ''Finished scanning for LUTs.''
       (fold (load_lut_file np_cast cv2_resize) files
          (logging INFO ''Scanning for custom .lut files...'' s))"

text \<open>Modelled from the spec: the resize primitive (\<^verbatim>\<open>cv2.resize\<close>, which is not part of
  the script) resamples a table to 256 entries by linear interpolation along the entry
  axis. For a column of \<open>n\<close> colours: interpolation between the two entries around the
  centre of each of the 256 output positions, in exact arithmetic and rounded to the
  nearest byte.\<close>

definition resize_position :: "nat \<Rightarrow> nat \<Rightarrow> nat \<times> real" where
  "resize_position n j =
     (let fy = (real j + 1 / 2) * (real n / 256) - 1 / 2;
          sy = \<lfloor>fy\<rfloor>
      in if sy < 0 then (0, 0)
         else if int n - 1 \<le> sy then (n - 1, 0)
         else (nat sy, fy - real_of_int sy))"

definition lerp_byte :: "real \<Rightarrow> uint8 \<Rightarrow> uint8 \<Rightarrow> uint8" where
  "lerp_byte w a b =
     word_of_int \<lfloor>(1 - w) * float_of a + w * float_of b + 1 / 2\<rfloor>"

definition resize_entry :: "ndarray \<Rightarrow> nat \<Rightarrow> nat \<Rightarrow> uint8 list" where
  "resize_entry a n j =
     (case resize_position n j of (sy, w) \<Rightarrow>
        map2 (lerp_byte w) (lut_entry a sy) (lut_entry a (min (sy + 1) (n - 1))))"

definition resize_linear :: "ndarray \<Rightarrow> error + ndarray" where
  "resize_linear a =
     (case nd_shape a of
        [n, w, c] \<Rightarrow>
          if n = 0 \<or> w \<noteq> 1 \<or> c \<noteq> 3 \<or> length (nd_flat a) \<noteq> 3 * n then Inl Cv2Error
          else Inr \<lparr>nd_shape = [256, 1, 3], nd_dtype = UInt8, nd_contiguous = True,
                    nd_flat = concat (map (resize_entry a n) [0..<256])\<rparr>
      | _ \<Rightarrow> Inl Cv2Error)"


subsection \<open>The frame queue and the capture callback\<close>

text \<open>\<^verbatim>\<open>queue.Queue(BUF_SIZE)\<close>, oldest item first. A blocking \<^verbatim>\<open>put\<close> on a full queue
  does not return: \<open>None\<close>. \<^verbatim>\<open>get_nowait\<close>, and \<^verbatim>\<open>get\<close> with a timeout on a queue
  that stays empty, raise \<^verbatim>\<open>queue.Empty\<close>.\<close>

definition queue_full :: "'a list \<Rightarrow> bool" where
  "queue_full q = (0 < BUF_SIZE \<and> BUF_SIZE \<le> length q)"

definition queue_put :: "'a \<Rightarrow> 'a list \<Rightarrow> 'a list option" where
  "queue_put x q = (if queue_full q then None else Some (q @ [x]))"

definition queue_get_nowait :: "'a list \<Rightarrow> error + 'a \<times> 'a list" where
  "queue_get_nowait q = (case q of [] \<Rightarrow> Inl QueueEmpty | x # r \<Rightarrow> Inr (x, r))"

definition queue_get :: "real \<Rightarrow> 'a list \<Rightarrow> error + 'a \<times> 'a list" where
  "queue_get timeout q = (case q of [] \<Rightarrow> Inl QueueEmpty | x # r \<Rightarrow> Inr (x, r))"

text \<open>The \<^verbatim>\<open>uvc_frame\<close> handed to the callback: the data pointer is null or gives the
  bytes of memory behind it; \<open>None\<close> for the argument itself is a null frame pointer.\<close>

record uvc_frame =
  uf_data :: "(nat \<Rightarrow> uint8) option"
  uf_width :: nat
  uf_height :: nat
  uf_data_bytes :: nat

definition frombuffer :: "(nat \<Rightarrow> uint8) \<Rightarrow> nat \<Rightarrow> ndarray" where
  "frombuffer mem n = \<lparr>nd_shape = [n], nd_dtype = UInt8, nd_contiguous = True,
                       nd_flat = map mem [0..<n]\<rparr>"

definition py_frame_callback ::
  "uvc_frame option \<Rightarrow> ndarray list \<Rightarrow> (event list \<times> ndarray list) option" where
  "py_frame_callback frame q =
     (case frame of
        None \<Rightarrow> Some ([], q)
      | Some f \<Rightarrow>
          (case uf_data f of
             None \<Rightarrow> Some ([], q)
           | Some mem \<Rightarrow>
               if uf_width f \<noteq> CAM_WIDTH \<or> uf_height f \<noteq> CAM_HEIGHT then Some ([], q)
               else (let actual_bytes = uf_data_bytes f;
                         expected_bytes = CAM_WIDTH * CAM_HEIGHT * 2
                     in if actual_bytes \<noteq> expected_bytes then Some ([], q)
                        else (case reshape [CAM_HEIGHT, CAM_WIDTH, 2]
                                     (frombuffer mem actual_bytes) of
                                Inl e \<Rightarrow> Some ([Log ERROR ''ERROR in py_frame_callback''], q)
                              | Inr frame_data_np \<Rightarrow>
                                  if \<not> queue_full q
                                  then map_option (Pair []) (queue_put frame_data_np q)
                                  else (case queue_get_nowait q of
                                          Inl e \<Rightarrow> Some ([], q)
                                        | Inr (oldest, q1) \<Rightarrow>
                                            map_option (Pair [])
                                              (queue_put frame_data_np q1))))))"

text \<open>What the queue demands of an item: a \<open>CAM_HEIGHT \<times> CAM_WIDTH\<close> frame of two bytes
  per pixel.\<close>

definition frame_ok :: "ndarray \<Rightarrow> bool" where
  "frame_ok a = (nd_shape a = [CAM_HEIGHT, CAM_WIDTH, 2]
                 \<and> length (nd_flat a) = CAM_WIDTH * CAM_HEIGHT * 2)"

text \<open>A raw buffer that meets the expected dimensions and length.\<close>

definition raw_ok :: "uvc_frame option \<Rightarrow> bool" where
  "raw_ok frame =
     (case frame of
        None \<Rightarrow> False
      | Some f \<Rightarrow> uf_data f \<noteq> None \<and> uf_width f = CAM_WIDTH \<and> uf_height f = CAM_HEIGHT
                  \<and> uf_data_bytes f = CAM_WIDTH * CAM_HEIGHT * 2)"

text \<open>The operations on the queue in the order they take effect: a callback of the
  capture thread, one \<^verbatim>\<open>get\<close> of the render loop, or the draining loop of
  \<^verbatim>\<open>stop_uvc_stream\<close> and \<^verbatim>\<open>clear_frame_queue\<close>
  (\<^verbatim>\<open>while not frame_queue.empty(): frame_queue.get_nowait()\<close>, counting the frames).\<close>

datatype queue_op = Produce "uvc_frame option" | Consume | Drain

fun drain_queue :: "'a list \<Rightarrow> nat \<Rightarrow> 'a list \<times> nat" where
  "drain_queue [] cleared_frames = ([], cleared_frames)"
| "drain_queue (x # q) cleared_frames = drain_queue q (cleared_frames + 1)"

definition queue_step :: "queue_op \<Rightarrow> ndarray list \<Rightarrow> ndarray list" where
  "queue_step op q =
     (case op of
        Produce frame \<Rightarrow> (case py_frame_callback frame q of None \<Rightarrow> q | Some r \<Rightarrow> snd r)
      | Consume \<Rightarrow> (case queue_get (1 / 2) q of Inl e \<Rightarrow> q | Inr r \<Rightarrow> snd r)
      | Drain \<Rightarrow> fst (drain_queue q 0))"

definition queue_run :: "queue_op list \<Rightarrow> ndarray list \<Rightarrow> ndarray list" where
  "queue_run ops q = fold queue_step ops q"

subsection \<open>Helpers of the render loop\<close>

definition set_cpu_governor :: "string \<Rightarrow> viewer \<Rightarrow> viewer" where
  "set_cpu_governor governor s =
     emit (SetGovernor governor) (logging INFO ''Attempting to set CPU governor'' s)"

datatype sensor_read = SensorMissing | SensorUnreadable | SensorMilliC int

definition get_cpu_temperature :: "sensor_read \<Rightarrow> viewer \<Rightarrow> real option \<times> viewer" where
  "get_cpu_temperature r s =
     (case r of
        SensorMilliC temp_milli_c \<Rightarrow> (Some (real_of_int temp_milli_c / 1000), s)
      | SensorMissing \<Rightarrow> (None, s)
      | SensorUnreadable \<Rightarrow> (None, logging ERROR ''Could not read CPU temperature'' s))"

definition shutdown_pi :: "bool \<Rightarrow> viewer \<Rightarrow> viewer" where
  "shutdown_pi command_ok s =
     (let s1 = emit ShutdownRequest
                 (logging CRITICAL ''detected! Initiating shutdown NOW!'' s)
      in if command_ok then s1
         else logging ERROR ''Manual shutdown may be required.''
                (logging ERROR ''ERROR: Failed to initiate shutdown'' s1))"

definition start_uvc_stream :: "int \<Rightarrow> real \<Rightarrow> viewer \<Rightarrow> viewer" where
  "start_uvc_stream res now s =
     (if stream_is_active s then s
      else if \<not> uvc_devh s
      then logging ERROR ''Cannot start stream, UVC handle not ready.'' s
      else (let s1 = emit StartStreaming (logging INFO ''Attempting to start UVC stream...'' s)
            in if res < 0
               then (logging ERROR ''uvc_start_streaming failed'' s1)
                      \<lparr>stream_is_active := False\<rparr>
               else (logging INFO ''UVC stream started.'' s1)
                      \<lparr>stream_is_active := True, last_display_time := now\<rparr>))"

definition stop_uvc_stream :: "bool \<Rightarrow> viewer \<Rightarrow> viewer" where
  "stop_uvc_stream stop_raises s =
     (if \<not> stream_is_active s then s
      else if \<not> uvc_devh s
      then logging WARNING ''UVC device handle is None. Cannot stop stream.'' s
      else (let s1 = emit StopStreaming s;
                s2 = (if stop_raises
                      then logging WARNING ''error stopping UVC stream'' s1
                      else logging INFO ''UVC stream stopped for power save.'' s1);
                s3 = s2\<lparr>stream_is_active := False\<rparr>;
                drained = drain_queue (frame_queue s3) 0
            in logging INFO ''Cleared frames from the queue.''
                 (s3\<lparr>frame_queue := fst drained\<rparr>)))"


subsection \<open>Frame processing: automatic gain and colour mapping\<close>

text \<open>The OpenCV primitives the loop calls on a frame: the two colour conversions that
  give the grayscale image, and \<^verbatim>\<open>applyColorMap\<close> with a colormap id or with a table,
  which may raise \<^verbatim>\<open>cv2.error\<close> or something else.\<close>

record cv2 =
  uyvy_to_gray :: "ndarray \<Rightarrow> ndarray"
  applyColorMap_id :: "ndarray \<Rightarrow> cv2_colormap \<Rightarrow> bgr list"
  applyColorMap_lut :: "ndarray \<Rightarrow> ndarray \<Rightarrow> error + bgr list"

text \<open>\<^verbatim>\<open>cvRound\<close> rounds to the nearest integer, a tie to the even one;
  \<^verbatim>\<open>saturate_cast<uchar>\<close> clips to \<open>0..255\<close>.\<close>

definition cvRound :: "real \<Rightarrow> int" where
  "cvRound x =
     (let f = \<lfloor>x\<rfloor>; d = x - real_of_int f
      in if d < 1 / 2 then f
         else if 1 / 2 < d then f + 1
         else if even f then f else f + 1)"

definition saturate_uint8 :: "int \<Rightarrow> uint8" where
  "saturate_uint8 v = word_of_int (max 0 (min 255 v))"

definition convertScaleAbs :: "real \<Rightarrow> real \<Rightarrow> uint8 \<Rightarrow> uint8" where
  "convertScaleAbs alpha beta x =
     saturate_uint8 (cvRound \<bar>float_of x * alpha + beta\<bar>)"

text \<open>Lines 548 to 556; \<^verbatim>\<open>cv2.minMaxLoc\<close> fails on an image without pixels.\<close>

definition auto_gain :: "ndarray \<Rightarrow> error + ndarray" where
  "auto_gain frame_gray =
     (case nd_flat frame_gray of
        [] \<Rightarrow> Inl Cv2Error
      | x # xs \<Rightarrow>
          (let min_val = float_of (fold min xs x);
               max_val = float_of (fold max xs x)
           in if max_val > min_val
              then (let alpha = 255 / (max_val - min_val);
                        beta = - min_val * alpha
                    in Inr (frame_gray\<lparr>nd_dtype := UInt8,
                              nd_flat := map (convertScaleAbs alpha beta) (nd_flat frame_gray)\<rparr>))
              else Inr frame_gray))"

text \<open>\<^verbatim>\<open>cv2.cvtColor(_, cv2.COLOR_GRAY2BGR)\<close>: the intensity in each of the three
  channels.\<close>

definition gray2bgr :: "ndarray \<Rightarrow> bgr list" where
  "gray2bgr g = map (\<lambda>v. (v, v, v)) (nd_flat g)"

definition lut_checks :: "ndarray \<Rightarrow> ndarray \<Rightarrow> bool" where
  "lut_checks frame_gray_agc lut =
     (let is_correct_shape = (nd_shape lut = [256, 1, 3]);
          is_uint8 = (nd_dtype lut = UInt8);
          is_contig = nd_contiguous lut;
          is_total_768 = (nd_size lut = 768);
          is_input_uint8 = (nd_dtype frame_gray_agc = UInt8)
      in is_correct_shape \<and> is_uint8 \<and> is_contig \<and> is_total_768 \<and> is_input_uint8)"

text \<open>Lines 559 to 606; of the six error lines of a failed validation the first is kept.\<close>

definition apply_colormap :: "cv2 \<Rightarrow> ndarray \<Rightarrow> viewer \<Rightarrow> (error + bgr list) \<times> viewer" where
  "apply_colormap cv frame_gray_agc s =
     (case current_colormap s of
        Custom lut \<Rightarrow>
          if lut_checks frame_gray_agc lut
          then (case applyColorMap_lut cv frame_gray_agc lut of
                  Inr frame_color \<Rightarrow> (Inr frame_color, s)
                | Inl e \<Rightarrow>
                    if e = Cv2Error
                    then (Inr (gray2bgr frame_gray_agc),
                          logging ERROR ''cv2.applyColorMap error!'' s)
                    else (Inl e, s))
          else (Inr (gray2bgr frame_gray_agc),
                logging ERROR ''Custom LUT failed validation right before use'' s)
      | Builtin colormap_id \<Rightarrow> (Inr (applyColorMap_id cv frame_gray_agc colormap_id), s))"

subsection \<open>One pass of the render loop\<close>

text \<open>What the collaborators answer during one pass of the loop.\<close>

record tick =
  current_time :: real
  sensor :: sensor_read
  shutdown_ok :: bool
  buttonA_value :: bool
  buttonB_value :: bool
  start_res :: int
  stop_raises :: bool
  arrivals :: "uvc_frame option list"

datatype flow = Go | Continue | Break | Raised error

definition then_stage :: "flow \<times> viewer \<Rightarrow> (viewer \<Rightarrow> flow \<times> viewer) \<Rightarrow> flow \<times> viewer" where
  "then_stage r f = (case r of (Go, s) \<Rightarrow> f s | _ \<Rightarrow> r)"

definition check_temperature :: "tick \<Rightarrow> viewer \<Rightarrow> flow \<times> viewer" where
  "check_temperature t s =
     (if current_time t - last_temp_shutdown_check_time s > CPU_TEMP_SHUTDOWN_CHECK_INTERVAL_S
      then (case get_cpu_temperature (sensor t) s of
              (None, s1) \<Rightarrow> (Go, s1\<lparr>last_temp_shutdown_check_time := current_time t\<rparr>)
            | (Some cpu_temp, s1) \<Rightarrow>
                (let s2 = (if current_time t - last_temp_log_time s1 > CPU_TEMP_LOG_INTERVAL_S
                           then (logging INFO ''CPU Temp'' s1)
                                  \<lparr>last_temp_log_time := current_time t\<rparr>
                           else s1)
                 in if cpu_temp > CPU_TEMP_SHUTDOWN_THRESHOLD_C
                    then (Break, emit (Sleep 10)
                                   (shutdown_pi (shutdown_ok t) (s2\<lparr>is_running := False\<rparr>)))
                    else (Go, s2\<lparr>last_temp_shutdown_check_time := current_time t\<rparr>)))
      else (Go, s))"

definition button_a :: "tick \<Rightarrow> viewer \<Rightarrow> flow \<times> viewer" where
  "button_a t s =
     (let button_a_pressed = (buttonA s \<and> \<not> buttonA_value t)
      in if button_a_pressed \<and> current_time t - last_button_a_time s > 3 / 10
         then (let s1 = s\<lparr>last_button_a_time := current_time t\<rparr>
               in if length (colormaps s1) = 0 then (Raised OtherException, s1)
                  else (let i = (colormap_index s1 + 1) mod length (colormaps s1)
                        in (Go, logging INFO ''Button A Pressed: Colormap''
                                  (s1\<lparr>colormap_index := i,
                                      current_colormap := snd (colormaps s1 ! i),
                                      current_colormap_name := fst (colormaps s1 ! i)\<rparr>))))
         else (Go, s))"

definition button_b :: "tick \<Rightarrow> viewer \<Rightarrow> flow \<times> viewer" where
  "button_b t s =
     (let button_b_pressed = (buttonB s \<and> \<not> buttonB_value t)
      in if button_b_pressed \<and> current_time t - last_button_b_time s > 3 / 10
         then (let s1 = s\<lparr>last_button_b_time := current_time t,
                          display_active := \<not> display_active s\<rparr>
               in if \<not> backlight s1 then (Raised OtherException, s1)
                  else (let s2 = logging INFO ''Button B Pressed: Toggled display''
                                   (emit (Backlight (display_active s1)) s1)
                        in if display_active s2
                           then (Go, start_uvc_stream (start_res t) (current_time t)
                                       (set_cpu_governor CPU_GOVERNOR_RUN s2))
                           else (Go, emit (Blit BlackScreen)
                                       (set_cpu_governor CPU_GOVERNOR_SAVE
                                          (stop_uvc_stream (stop_raises t) s2)))))
         else (Go, s))"

text \<open>The callbacks of the capture thread that run while the loop waits for a frame.\<close>

fun deliver :: "uvc_frame option list \<Rightarrow> viewer \<Rightarrow> viewer" where
  "deliver [] s = s"
| "deliver (f # fs) s =
     (case py_frame_callback f (frame_queue s) of
        None \<Rightarrow> s
      | Some (msgs, q) \<Rightarrow> deliver fs (emits msgs (s\<lparr>frame_queue := q\<rparr>)))"

definition update_fps :: "tick \<Rightarrow> viewer \<Rightarrow> viewer" where
  "update_fps t s =
     (let s1 = s\<lparr>frame_count := frame_count s + 1, last_display_time := current_time t\<rparr>;
          elapsed_time = current_time t - start_time s1
      in if elapsed_time \<ge> 5
         then (logging DEBUG ''Display FPS'' s1)\<lparr>frame_count := 0, start_time := current_time t\<rparr>
         else s1)"

text \<open>Lines 541 to 628. Resizing to the display, the change of channel order and the
  transfer to the display are the one event \<open>Blit\<close> of the coloured frame.\<close>

definition render :: "cv2 \<Rightarrow> tick \<Rightarrow> ndarray \<Rightarrow> viewer \<Rightarrow> flow \<times> viewer" where
  "render cv t frame_uyvy s =
     (let frame_gray = uyvy_to_gray cv frame_uyvy
      in case auto_gain frame_gray of
           Inl e \<Rightarrow> (Raised e, s)
         | Inr frame_gray_agc \<Rightarrow>
             (case apply_colormap cv frame_gray_agc s of
                (Inl e, s1) \<Rightarrow> (Raised e, s1)
              | (Inr frame_color, s1) \<Rightarrow>
                  (Go, update_fps t (emit (Blit (Picture frame_color)) s1))))"

definition frame_handling :: "cv2 \<Rightarrow> tick \<Rightarrow> viewer \<Rightarrow> flow \<times> viewer" where
  "frame_handling cv t s =
     (if display_active s \<and> stream_is_active s
      then (let s1 = deliver (arrivals t) s
            in case queue_get (1 / 2) (frame_queue s1) of
                 Inl e \<Rightarrow> (Continue, emit (GetTimeout (1 / 2)) s1)
               | Inr (frame_uyvy, q) \<Rightarrow> render cv t frame_uyvy (s1\<lparr>frame_queue := q\<rparr>))
      else if \<not> display_active s then (Go, emit (Sleep (1 / 4)) s)
      else (Go, s))"

definition loop_body :: "cv2 \<Rightarrow> tick \<Rightarrow> viewer \<Rightarrow> flow \<times> viewer" where
  "loop_body cv t s =
     then_stage (then_stage (then_stage (check_temperature t s) (button_a t)) (button_b t))
       (frame_handling cv t)"

text \<open>The \<^verbatim>\<open>try\<close> statement around the body: an exception is reported and followed by
  a short sleep. The result says whether the loop was left by \<^verbatim>\<open>break\<close>.\<close>

definition loop_iteration :: "cv2 \<Rightarrow> tick \<Rightarrow> viewer \<Rightarrow> bool \<times> viewer" where
  "loop_iteration cv t s =
     (case loop_body cv t s of
        (Break, s1) \<Rightarrow> (True, s1)
      | (Raised e, s1) \<Rightarrow>
          (False, emit (Sleep (1 / 10)) (logging ERROR ''Error in main processing loop'' s1))
      | (Go, s1) \<Rightarrow> (False, s1)
      | (Continue, s1) \<Rightarrow> (False, s1))"

text \<open>The loop \<^verbatim>\<open>while self.is_running\<close> over what happens in each pass: a pass with the
  collaborators' answers, or a \<^verbatim>\<open>KeyboardInterrupt\<close>. \<open>None\<close>: the loop is still running
  when the given passes are used up.\<close>

datatype loop_input = Tick tick | KeyboardInterrupt

fun viewer_loop :: "cv2 \<Rightarrow> loop_input list \<Rightarrow> viewer \<Rightarrow> viewer option" where
  "viewer_loop cv [] s = (if \<not> is_running s then Some s else None)"
| "viewer_loop cv (i # rest) s =
     (if \<not> is_running s then Some s
      else case i of
        KeyboardInterrupt \<Rightarrow>
          viewer_loop cv rest
            (logging INFO ''Exiting loop due to KeyboardInterrupt.'' (s\<lparr>is_running := False\<rparr>))
      | Tick t \<Rightarrow>
          (case loop_iteration cv t s of
             (True, s1) \<Rightarrow> Some s1
           | (False, s1) \<Rightarrow> viewer_loop cv rest s1))"

text \<open>The operating mode of the specification, read off the flags.\<close>

datatype OperatingMode = RUNNING | POWERSAVE | SHUTTING_DOWN

definition operating_mode :: "viewer \<Rightarrow> OperatingMode" where
  "operating_mode s =
     (if \<not> is_running s then SHUTTING_DOWN
      else if display_active s then RUNNING else POWERSAVE)"


subsection \<open>Start-up, \<^verbatim>\<open>run\<close> and the exit status\<close>

text \<open>What the collaborators answer during start-up and at exit: whether each block of
  the display set-up succeeds, the \<^verbatim>\<open>.lut\<close> files found (with what NumPy and
  \<^verbatim>\<open>cv2.resize\<close> make of them), the result codes of the four
  libuvc calls and of the first start of the stream, and the clock.\<close>

record startup =
  pins_ok :: bool
  control_pins_ok :: bool
  spi_ok :: bool
  driver_ok :: bool
  lut_files :: "(string \<times> lut_text) list"
  lut_cast :: "pyval \<Rightarrow> error + uint8"
  lut_resize :: "ndarray \<Rightarrow> error + ndarray"
  uvc_init_res :: int
  uvc_find_device_res :: int
  uvc_open_res :: int
  uvc_get_stream_ctrl_res :: int
  first_start_res :: int
  loop_start_time :: real
  exit_stop_raises :: bool

text \<open>How a call ends: it returns, raises an exception, or raises \<^verbatim>\<open>SystemExit\<close>
  through \<^verbatim>\<open>exit(code)\<close>, which \<^verbatim>\<open>except Exception\<close> does not catch.\<close>

datatype completion = Returned | Raises error | SystemExit nat

definition cleanup :: "bool \<Rightarrow> viewer \<Rightarrow> viewer" where
  "cleanup stop_fails s =
     (let s1 = stop_uvc_stream stop_fails (logging INFO ''Cleaning up resources...'' s);
          s2 = (if uvc_devh s1 then emit CloseCamera s1 else s1)
                 \<lparr>uvc_devh := False, uvc_dev := False, uvc_ctx := False\<rparr>;
          s3 = (if backlight s2 then emit (Backlight False) s2 else s2)
                 \<lparr>buttonA := False, buttonB := False, backlight := False\<rparr>;
          s4 = (if disp s3 then emit (Blit BlackScreen) s3 else s3)\<lparr>disp := False\<rparr>
      in logging INFO ''Cleanup finished.'' s4)"

definition initialize_display_and_buttons :: "startup \<Rightarrow> viewer \<Rightarrow> completion \<times> viewer" where
  "initialize_display_and_buttons st s =
     (let s0 = logging INFO ''Initializing Adafruit Mini PiTFT...'' s
      in if \<not> pins_ok st
         then (SystemExit 1, logging ERROR ''ERROR initializing digitalio pins'' s0)
         else (let s1 = emit (Backlight (display_active s0))
                          (s0\<lparr>backlight := True, buttonA := True, buttonB := True\<rparr>)
               in if \<not> control_pins_ok st
                  then (SystemExit 1,
                        logging ERROR ''ERROR initializing display control pins'' s1)
                  else if \<not> spi_ok st
                  then (SystemExit 1, logging ERROR ''ERROR initializing busio SPI'' s1)
                  else if \<not> driver_ok st
                  then (SystemExit 1, logging ERROR ''ERROR initializing display driver'' s1)
                  else (Returned, emit (Blit BlackScreen) (s1\<lparr>disp := True\<rparr>))))"

definition initialize_camera :: "startup \<Rightarrow> viewer \<Rightarrow> completion \<times> viewer" where
  "initialize_camera st s =
     (let s0 = logging INFO ''Initializing libuvc Camera...'' s
      in if uvc_init_res st < 0
         then (Raises (RuntimeError ''uvc_init error''), logging ERROR ''uvc_init error'' s0)
         else (let s1 = s0\<lparr>uvc_ctx := True\<rparr>
               in if uvc_find_device_res st < 0
                  then (Raises (RuntimeError ''uvc_find_device error''),
                        logging ERROR ''uvc_find_device error'' s1)
                  else (let s2 = s1\<lparr>uvc_dev := True\<rparr>
                        in if uvc_open_res st < 0
                           then (Raises (RuntimeError ''uvc_open error''),
                                 logging ERROR ''uvc_open error'' s2)
                           else (let s3 = s2\<lparr>uvc_devh := True\<rparr>
                                 in if uvc_get_stream_ctrl_res st < 0
                                    then (Raises (RuntimeError
                                                   ''uvc_get_stream_ctrl_format_size failed''),
                                          cleanup (exit_stop_raises st)
                                            (logging ERROR
                                               ''uvc_get_stream_ctrl_format_size failed'' s3))
                                    else (Returned,
                                          logging INFO ''Camera Initialized.'' s3)))))"

definition process_and_display ::
  "cv2 \<Rightarrow> startup \<Rightarrow> loop_input list \<Rightarrow> viewer \<Rightarrow> viewer option" where
  "process_and_display cv st inputs s =
     (if \<not> disp s then Some (logging ERROR ''Display not initialized.'' s)
      else (let s1 = set_cpu_governor
                       (if display_active s then CPU_GOVERNOR_RUN else CPU_GOVERNOR_SAVE) s;
                s2 = (if display_active s1
                      then start_uvc_stream (first_start_res st) (loop_start_time st) s1
                      else s1);
                s3 = (logging INFO ''Starting thermal viewer loop...'' s2)
                       \<lparr>start_time := loop_start_time st, frame_count := 0,
                        last_temp_shutdown_check_time := loop_start_time st,
                        last_temp_log_time := loop_start_time st,
                        last_button_a_time := 0, last_button_b_time := 0\<rparr>
            in viewer_loop cv inputs s3))"

text \<open>The body of the \<^verbatim>\<open>try\<close> statement of \<^verbatim>\<open>run\<close>.\<close>

definition run_body ::
  "cv2 \<Rightarrow> startup \<Rightarrow> loop_input list \<Rightarrow> viewer \<Rightarrow> (completion \<times> viewer) option" where
  "run_body cv st inputs s =
     (case initialize_display_and_buttons st s of
        (Returned, s1) \<Rightarrow>
          (case initialize_camera st
                  (load_custom_luts (lut_cast st) (lut_resize st) (lut_files st) s1) of
             (Returned, s2) \<Rightarrow>
               map_option (Pair Returned) (process_and_display cv st inputs s2)
           | r \<Rightarrow> Some r)
      | r \<Rightarrow> Some r)"

definition run ::
  "cv2 \<Rightarrow> startup \<Rightarrow> loop_input list \<Rightarrow> viewer \<Rightarrow> (completion \<times> viewer) option" where
  "run cv st inputs s =
     (case run_body cv st inputs
             (set_cpu_governor CPU_GOVERNOR_RUN (logging INFO ''Application run started.'' s)) of
        None \<Rightarrow> None
      | Some (c, s1) \<Rightarrow>
          (let handled =
                 (case c of
                    Raises e \<Rightarrow>
                      (Returned,
                       logging ERROR ''An unexpected error occurred during setup or run'' s1)
                  | _ \<Rightarrow> (c, s1))
           in Some (fst handled,
                    cleanup (exit_stop_raises st)
                      (set_cpu_governor CPU_GOVERNOR_RUN ((snd handled)\<lparr>is_running := False\<rparr>)))))"

text \<open>The exit status of the interpreter: the code of \<^verbatim>\<open>SystemExit\<close>, 1 for an uncaught
  exception, 0 when the script runs to its end.\<close>

definition exit_code :: "completion \<Rightarrow> nat" where
  "exit_code c = (case c of Returned \<Rightarrow> 0 | Raises e \<Rightarrow> 1 | SystemExit n \<Rightarrow> n)"

text \<open>The script's last lines: \<^verbatim>\<open>app = LeptonViewer(); app.run()\<close>.\<close>

definition main :: "cv2 \<Rightarrow> startup \<Rightarrow> real \<Rightarrow> loop_input list \<Rightarrow> nat option" where
  "main cv st now inputs =
     map_option (\<lambda>r. exit_code (fst r)) (run cv st inputs (init_viewer now))"

section \<open>Properties\<close>

subsection \<open>The gradient builder\<close>

lemma length_linspace: "length (linspace s t n) = n"
  by (simp add: linspace_def)

lemma linspace_row_length:
  "length s = k \<Longrightarrow> length t = k \<Longrightarrow> r \<in> set (linspace s t n) \<Longrightarrow> length r = k"
  by (auto simp: linspace_def)

lemma length_astype_rows: "length (astype_rows rows) = length rows"
  by (simp add: astype_rows_def)

lemma astype_rows_row_length:
  "r \<in> set (astype_rows rows) \<Longrightarrow> \<exists>r' \<in> set rows. length r = length r'"
  by (auto simp: astype_rows_def)

lemma length_concat_rows:
  "(\<And>r. r \<in> set rows \<Longrightarrow> length r = k) \<Longrightarrow> length (concat rows) = k * length rows"
  by (induction rows) (auto simp: length_concat)

lemma black_to_white_rows: "r \<in> set (black_to_white n) \<Longrightarrow> length r = 3"
  unfolding black_to_white_def
  by (auto dest!: astype_rows_row_length dest: linspace_row_length [where k = 3, rotated 2])

lemma gradient_colors_lengths:
  "gradient_colors color = Some g \<Longrightarrow> length (fst g) = 3 \<and> length (snd g) = 3"
  by (auto simp: gradient_colors_def split: if_splits)

lemma color_gradient_rows:
  "gradient_colors color = Some g \<Longrightarrow> r \<in> set (color_gradient g n) \<Longrightarrow> length r = 3"
  unfolding color_gradient_def
  by (auto dest!: astype_rows_row_length gradient_colors_lengths dest: linspace_row_length [where k = 3, rotated 2])

lemma length_black_to_white: "length (black_to_white n) = n"
  by (simp add: black_to_white_def length_astype_rows length_linspace)

lemma length_color_gradient: "length (color_gradient g n) = n"
  by (simp add: color_gradient_def length_astype_rows length_linspace)


lemma segments_rows:
  assumes "gradient_colors color = Some g"
    and "r \<in> set (black_to_white m @ color_gradient g n)"
  shows "length r = 3"
  using assms by (auto dest: black_to_white_rows color_gradient_rows)

lemma reshape_256_1_3_ok:
  assumes "length rows = 256" and "\<And>r. r \<in> set rows \<Longrightarrow> length r = 3"
  shows "reshape [256, 1, 3] (of_rows rows) =
           Inr \<lparr>nd_shape = [256, 1, 3], nd_dtype = UInt8, nd_contiguous = True,
                nd_flat = concat rows\<rparr>"
proof -
  have "length (concat rows) = 3 * length rows"
    using assms(2) by (rule length_concat_rows)
  then show ?thesis
    by (simp add: reshape_def of_rows_def assms(1))
qed

lemma gradient_segments_in_range:
  assumes "1 \<le> step" and "step \<le> 255"
  shows "gradient_segments g step =
           ([], black_to_white (nat (256 - step)) @ color_gradient g (nat step))"
  using assms by (simp add: gradient_segments_def)

lemma length_segments:
  assumes "1 \<le> step" and "step \<le> 255"
  shows "length (black_to_white (nat (256 - step)) @ color_gradient g (nat step)) = 256"
  using assms by (simp add: length_black_to_white length_color_gradient)

lemma create_custom_lut_in_range:
  assumes "1 \<le> step" and "step \<le> 255" and "gradient_colors color = Some g"
  shows "create_custom_lut color step =
           Inr ([Log DEBUG ''Created custom LUT''],
                \<lparr>nd_shape = [256, 1, 3], nd_dtype = UInt8, nd_contiguous = True,
                 nd_flat = concat (black_to_white (nat (256 - step))
                                   @ color_gradient g (nat step))\<rparr>)"
proof -
  let ?rows = "black_to_white (nat (256 - step)) @ color_gradient g (nat step)"
  have len: "length ?rows = 256"
    using assms(1,2) by (rule length_segments)
  have rows: "\<And>r. r \<in> set ?rows \<Longrightarrow> length r = 3"
    using assms(3) by (rule segments_rows)
  have e: "ensure_256 ?rows = Inr ([], ?rows)"
    using len by (simp add: ensure_256_def)
  have r: "reshape [256, 1, 3] (of_rows ?rows) =
           Inr \<lparr>nd_shape = [256, 1, 3], nd_dtype = UInt8, nd_contiguous = True,
                nd_flat = concat ?rows\<rparr>"
    using len rows by (rule reshape_256_1_3_ok)
  show ?thesis
    using assms(1,2)
    by (simp add: create_custom_lut_def assms(3) gradient_segments_in_range e r
        ascontiguousarray_def del: One_nat_def)
qed

lemma length_lut_entry:
  "length (nd_flat t) = 768 \<Longrightarrow> i < 256 \<Longrightarrow> length (lut_entry t i) = 3"
  by (simp add: lut_entry_def)

lemma supported_color:
  "color \<in> {''red'', ''green'', ''blue''} \<Longrightarrow> \<exists>g. gradient_colors color = Some g"
  by (auto simp: gradient_colors_def)

text \<open>
  Claim C2. For every gradient step from 1 to 255 and each of the colours red, green and
  blue, \<open>create_custom_lut\<close> returns a table of shape \<open>256 \<times> 1 \<times> 3\<close> of bytes: 768 bytes,
  that is 256 entries of three bytes each. For every step that is at most 0 or at least
  256 it raises the \<^verbatim>\<open>ValueError\<close> about the step, for any colour, and returns no table.
\<close>

theorem create_custom_lut_table:
  "(1 \<le> step \<and> step \<le> 255 \<and> color \<in> {''red'', ''green'', ''blue''} \<longrightarrow>
      (\<exists>msgs t. create_custom_lut color step = Inr (msgs, t)
         \<and> nd_shape t = [256, 1, 3] \<and> nd_dtype t = UInt8
         \<and> length (nd_flat t) = 768
         \<and> (\<forall>i<256. length (lut_entry t i) = 3)))
   \<and> (step \<le> 0 \<or> step \<ge> 256 \<longrightarrow>
        create_custom_lut color step =
          Inl (ValueError ''color_gradient_step must be between 1 and 255.''))"
proof (intro conjI impI)
  assume a: "1 \<le> step \<and> step \<le> 255 \<and> color \<in> {''red'', ''green'', ''blue''}"
  then obtain g where g: "gradient_colors color = Some g"
    using supported_color by blast
  define rows where "rows = black_to_white (nat (256 - step)) @ color_gradient g (nat step)"
  define t where "t = \<lparr>nd_shape = [256, 1, 3], nd_dtype = UInt8, nd_contiguous = True,
             nd_flat = concat rows\<rparr>"
  have c: "create_custom_lut color step = Inr ([Log DEBUG ''Created custom LUT''], t)"
    using a g unfolding t_def rows_def by (simp add: create_custom_lut_in_range)
  have len: "length rows = 256"
    unfolding rows_def using a by (intro length_segments) simp_all
  have "length (concat rows) = 3 * length rows"
    unfolding rows_def using segments_rows [OF g] by (rule length_concat_rows)
  with len have l: "length (nd_flat t) = 768"
    by (simp add: t_def)
  then have "\<forall>i<256. length (lut_entry t i) = 3"
    using length_lut_entry by blast
  moreover have "nd_shape t = [256, 1, 3]" and "nd_dtype t = UInt8"
    by (simp_all add: t_def)
  ultimately show "\<exists>msgs t. create_custom_lut color step = Inr (msgs, t)
         \<and> nd_shape t = [256, 1, 3] \<and> nd_dtype t = UInt8
         \<and> length (nd_flat t) = 768
         \<and> (\<forall>i<256. length (lut_entry t i) = 3)"
    using c l by blast
next
  assume "step \<le> 0 \<or> step \<ge> 256"
  then show "create_custom_lut color step =
          Inl (ValueError ''color_gradient_step must be between 1 and 255.'')"
    by (auto simp: create_custom_lut_def)
qed

theorem create_custom_lut_table_witness:
  "(\<exists>msgs t. create_custom_lut ''red'' 64 = Inr (msgs, t)
         \<and> nd_shape t = [256, 1, 3] \<and> nd_dtype t = UInt8
         \<and> length (nd_flat t) = 768
         \<and> (\<forall>i<256. length (lut_entry t i) = 3))
   \<and> create_custom_lut ''red'' 256 =
          Inl (ValueError ''color_gradient_step must be between 1 and 255.'')
   \<and> create_custom_lut ''red'' 0 =
          Inl (ValueError ''color_gradient_step must be between 1 and 255.'')"
  using create_custom_lut_table [of 64 "''red''"] create_custom_lut_table [of 256 "''red''"]
    create_custom_lut_table [of 0 "''red''"]
  by simp

text \<open>
  Claim C10. For every gradient step from 1 to 255 and a supported colour, the length of
  the black-to-white segment is positive, that segment has \<open>256 - step\<close> entries and the
  colour segment \<open>step\<close> entries, so their concatenation has exactly 256 entries. Neither
  the adjusting branch for a step that is too large nor the fallback that interpolates
  again is taken: no warning is logged, and the table returned is the concatenation
  itself.
\<close>

theorem gradient_fallbacks_unreachable:
  assumes "1 \<le> step" and "step \<le> 255" and "gradient_colors color = Some g"
  shows "\<not> 256 - step \<le> 0
       \<and> length (black_to_white (nat (256 - step))) = nat (256 - step)
       \<and> length (color_gradient g (nat step)) = nat step
       \<and> length (black_to_white (nat (256 - step)) @ color_gradient g (nat step)) = 256
       \<and> gradient_segments g step =
           ([], black_to_white (nat (256 - step)) @ color_gradient g (nat step))
       \<and> ensure_256 (black_to_white (nat (256 - step)) @ color_gradient g (nat step)) =
           Inr ([], black_to_white (nat (256 - step)) @ color_gradient g (nat step))
       \<and> (\<exists>msgs t. create_custom_lut color step = Inr (msgs, t) \<and> warnings msgs = []
            \<and> nd_flat t = concat (black_to_white (nat (256 - step))
                                   @ color_gradient g (nat step)))"
proof -
  let ?rows = "black_to_white (nat (256 - step)) @ color_gradient g (nat step)"
  have len: "length ?rows = 256"
    using assms(1,2) by (rule length_segments)
  have e: "ensure_256 ?rows = Inr ([], ?rows)"
    using len by (simp add: ensure_256_def)
  have c: "\<exists>msgs t. create_custom_lut color step = Inr (msgs, t) \<and> warnings msgs = []
            \<and> nd_flat t = concat ?rows"
    using create_custom_lut_in_range [OF assms] by (simp add: warnings_def)
  show ?thesis
    using assms(1,2) len e c
    by (simp add: length_black_to_white length_color_gradient gradient_segments_in_range)
qed

theorem gradient_fallbacks_unreachable_witness:
  "\<not> 256 - (255::int) \<le> 0
       \<and> length (black_to_white (nat (256 - 255))) = nat (256 - 255)
       \<and> length (color_gradient ([0, 64, 0], [0, 255, 0]) (nat 255)) = nat 255
       \<and> length (black_to_white (nat (256 - 255))
                 @ color_gradient ([0, 64, 0], [0, 255, 0]) (nat 255)) = 256
       \<and> gradient_segments ([0, 64, 0], [0, 255, 0]) 255 =
           ([], black_to_white (nat (256 - 255))
                @ color_gradient ([0, 64, 0], [0, 255, 0]) (nat 255))
       \<and> ensure_256 (black_to_white (nat (256 - 255))
                      @ color_gradient ([0, 64, 0], [0, 255, 0]) (nat 255)) =
           Inr ([], black_to_white (nat (256 - 255))
                    @ color_gradient ([0, 64, 0], [0, 255, 0]) (nat 255))
       \<and> (\<exists>msgs t. create_custom_lut ''green'' 255 = Inr (msgs, t) \<and> warnings msgs = []
            \<and> nd_flat t = concat (black_to_white (nat (256 - 255))
                                   @ color_gradient ([0, 64, 0], [0, 255, 0]) (nat 255)))"
proof -
  have g: "gradient_colors ''green'' = Some ([0, 64, 0], [0, 255, 0])"
    by (simp add: gradient_colors_def)
  show ?thesis
    by (rule gradient_fallbacks_unreachable [of 255 "''green''", OF _ _ g]) simp_all
qed

subsection \<open>The capture callback and the frame queue\<close>

lemma callback_discards:
  "\<not> raw_ok frame \<Longrightarrow> py_frame_callback frame q = Some ([], q)"
  by (auto simp: raw_ok_def py_frame_callback_def Let_def split: option.splits)

lemma reshape_frame:
  "reshape [CAM_HEIGHT, CAM_WIDTH, 2] (frombuffer mem (CAM_WIDTH * CAM_HEIGHT * 2)) =
     Inr \<lparr>nd_shape = [CAM_HEIGHT, CAM_WIDTH, 2], nd_dtype = UInt8, nd_contiguous = True,
          nd_flat = map mem [0..<CAM_WIDTH * CAM_HEIGHT * 2]\<rparr>"
  by (simp add: reshape_def frombuffer_def mult.commute)

lemma callback_accepts:
  assumes "uf_data f = Some mem" and "uf_width f = CAM_WIDTH" and "uf_height f = CAM_HEIGHT"
    and "uf_data_bytes f = CAM_WIDTH * CAM_HEIGHT * 2"
  shows "py_frame_callback (Some f) q =
           (let frame_data_np =
                  \<lparr>nd_shape = [CAM_HEIGHT, CAM_WIDTH, 2], nd_dtype = UInt8,
                   nd_contiguous = True, nd_flat = map mem [0..<CAM_WIDTH * CAM_HEIGHT * 2]\<rparr>
            in if \<not> queue_full q then map_option (Pair []) (queue_put frame_data_np q)
               else case queue_get_nowait q of
                      Inl e \<Rightarrow> Some ([], q)
                    | Inr (oldest, q1) \<Rightarrow> map_option (Pair []) (queue_put frame_data_np q1))"
  using assms by (simp add: py_frame_callback_def Let_def reshape_frame)

lemma frame_ok_new:
  "frame_ok \<lparr>nd_shape = [CAM_HEIGHT, CAM_WIDTH, 2], nd_dtype = UInt8, nd_contiguous = True,
             nd_flat = map mem [0..<CAM_WIDTH * CAM_HEIGHT * 2]\<rparr>"
  by (simp add: frame_ok_def)

lemma callback_new_items:
  assumes "py_frame_callback frame q = Some (msgs, q')" and "a \<in> set q'" and "a \<notin> set q"
  shows "raw_ok frame \<and> frame_ok a"
proof (cases "raw_ok frame")
  case False
  then show ?thesis
    using assms callback_discards [of frame q] by simp
next
  case True
  then obtain f mem where f: "frame = Some f" "uf_data f = Some mem"
    "uf_width f = CAM_WIDTH" "uf_height f = CAM_HEIGHT"
    "uf_data_bytes f = CAM_WIDTH * CAM_HEIGHT * 2"
    by (auto simp: raw_ok_def split: option.splits)
  have "frame_ok a"
    using assms frame_ok_new [of mem]
    unfolding f(1) callback_accepts [OF f(2-5)]
    by (auto simp: Let_def queue_put_def queue_get_nowait_def
        split: if_splits list.splits)
  with True show ?thesis by simp
qed

lemma callback_preserves:
  assumes "\<forall>a \<in> set q. frame_ok a" and "py_frame_callback frame q = Some (msgs, q')"
  shows "\<forall>a \<in> set q'. frame_ok a"
  using assms callback_new_items by blast

lemma drain_queue_empty: "fst (drain_queue q n) = []"
  by (induction q arbitrary: n) simp_all

lemma queue_step_preserves:
  assumes "\<forall>a \<in> set q. frame_ok a"
  shows "\<forall>a \<in> set (queue_step op q). frame_ok a"
proof (cases op)
  case (Produce frame)
  then show ?thesis
    using assms callback_preserves [of q frame]
    by (cases "py_frame_callback frame q") (auto simp: queue_step_def)
next
  case Consume
  then show ?thesis
    using assms by (auto simp: queue_step_def queue_get_def split: list.splits)
next
  case Drain
  then show ?thesis
    by (simp add: queue_step_def drain_queue_empty)
qed

lemma queue_run_preserves:
  "\<forall>a \<in> set q. frame_ok a \<Longrightarrow> \<forall>a \<in> set (queue_run ops q). frame_ok a"
  unfolding queue_run_def
proof (induction ops arbitrary: q)
  case Nil
  then show ?case by simp
next
  case (Cons op ops)
  then show ?case
    using queue_step_preserves [of q op] by simp
qed

text \<open>
  Claim C8. Starting from the empty queue, after any sequence of callbacks, reads and
  drains every frame in the queue has the shape \<open>CAM_HEIGHT \<times> CAM_WIDTH \<times> 2\<close> and
  \<open>CAM_WIDTH * CAM_HEIGHT * 2\<close> bytes. The callback leaves the queue as it is, and logs
  nothing, for a raw buffer that is null, has no data, or has another width, height or
  length; and whatever the callback adds to the queue comes from a raw buffer of the
  expected dimensions and length and is such a frame.
\<close>

theorem producer_boundary_invariant:
  "(\<forall>a \<in> set (queue_run ops []). frame_ok a)
   \<and> (\<not> raw_ok frame \<longrightarrow> py_frame_callback frame q = Some ([], q))
   \<and> (\<forall>msgs q' a. py_frame_callback frame q = Some (msgs, q') \<and> a \<in> set q' \<and> a \<notin> set q
        \<longrightarrow> raw_ok frame \<and> nd_shape a = [CAM_HEIGHT, CAM_WIDTH, 2]
            \<and> length (nd_flat a) = CAM_WIDTH * CAM_HEIGHT * 2)"
proof (intro conjI)
  show "\<forall>a \<in> set (queue_run ops []). frame_ok a"
    by (rule queue_run_preserves) simp
  show "\<not> raw_ok frame \<longrightarrow> py_frame_callback frame q = Some ([], q)"
    by (simp add: callback_discards)
  show "\<forall>msgs q' a. py_frame_callback frame q = Some (msgs, q') \<and> a \<in> set q' \<and> a \<notin> set q
        \<longrightarrow> raw_ok frame \<and> nd_shape a = [CAM_HEIGHT, CAM_WIDTH, 2]
            \<and> length (nd_flat a) = CAM_WIDTH * CAM_HEIGHT * 2"
    using callback_new_items [of frame q] by (auto simp: frame_ok_def)
qed

theorem producer_boundary_invariant_witness:
  "length (queue_run [Produce (Some \<lparr>uf_data = Some (\<lambda>i. 7), uf_width = 160, uf_height = 120,
                                      uf_data_bytes = 38400\<rparr>)] []) = 1
   \<and> list_all frame_ok
         (queue_run [Produce (Some \<lparr>uf_data = Some (\<lambda>i. 7), uf_width = 160,
                                    uf_height = 120, uf_data_bytes = 38400\<rparr>)] [])
   \<and> \<not> raw_ok (Some \<lparr>uf_data = Some (\<lambda>i. 7), uf_width = 160, uf_height = 120,
                      uf_data_bytes = 38399\<rparr>)
   \<and> py_frame_callback (Some \<lparr>uf_data = Some (\<lambda>i. 7), uf_width = 160, uf_height = 120,
                              uf_data_bytes = 38399\<rparr>) [] = Some ([], [])"
proof -
  let ?good = "\<lparr>uf_data = Some (\<lambda>i. 7), uf_width = 160, uf_height = 120,
                uf_data_bytes = 38400\<rparr>"
  let ?bad = "\<lparr>uf_data = Some (\<lambda>i. 7), uf_width = 160, uf_height = 120,
               uf_data_bytes = 38399\<rparr>"
  have 1: "length (queue_run [Produce (Some ?good)] []) = 1"
    by (simp add: queue_run_def queue_step_def callback_accepts [where mem = "\<lambda>i. 7"]
        CAM_WIDTH_def CAM_HEIGHT_def BUF_SIZE_def queue_full_def queue_put_def)
  have 2: "\<not> raw_ok (Some ?bad)"
    by (simp add: raw_ok_def CAM_WIDTH_def CAM_HEIGHT_def)
  show ?thesis
    using 1 2 producer_boundary_invariant [of "[Produce (Some ?good)]" "Some ?bad" "[]"]
    by (simp add: list_all_iff)
qed

lemma callback_never_blocks:
  assumes "length q \<le> BUF_SIZE"
  shows "py_frame_callback frame q \<noteq> None"
proof (cases "raw_ok frame")
  case False
  then show ?thesis by (simp add: callback_discards)
next
  case True
  then obtain f mem where f: "frame = Some f" "uf_data f = Some mem"
    "uf_width f = CAM_WIDTH" "uf_height f = CAM_HEIGHT"
    "uf_data_bytes f = CAM_WIDTH * CAM_HEIGHT * 2"
    by (auto simp: raw_ok_def split: option.splits)
  show ?thesis
    using assms unfolding f(1) callback_accepts [OF f(2-5)]
    by (auto simp: Let_def queue_put_def queue_get_nowait_def queue_full_def BUF_SIZE_def
        split: list.splits)
qed

lemma callback_full_queue:
  assumes "uf_data f = Some mem" and "uf_width f = CAM_WIDTH" and "uf_height f = CAM_HEIGHT"
    and "uf_data_bytes f = CAM_WIDTH * CAM_HEIGHT * 2"
  shows "py_frame_callback (Some f) [oldest, newer] =
           Some ([], [newer, \<lparr>nd_shape = [CAM_HEIGHT, CAM_WIDTH, 2], nd_dtype = UInt8,
                              nd_contiguous = True,
                              nd_flat = map mem [0..<CAM_WIDTH * CAM_HEIGHT * 2]\<rparr>])"
  unfolding callback_accepts [OF assms]
  by (simp add: Let_def queue_put_def queue_get_nowait_def queue_full_def BUF_SIZE_def)

lemma deliver_discards:
  "list_all (\<lambda>f. \<not> raw_ok f) fs \<Longrightarrow> deliver fs s = s"
  by (induction fs arbitrary: s) (simp_all add: callback_discards emits_def)

lemma frame_handling_empty:
  assumes "display_active s" and "stream_is_active s"
    and "frame_queue (deliver (arrivals t) s) = []"
  shows "frame_handling cv t s = (Continue, emit (GetTimeout (1 / 2)) (deliver (arrivals t) s))"
  using assms by (simp add: frame_handling_def queue_get_def Let_def)

text \<open>
  Claim C4. The queue holds at most \<open>BUF_SIZE = 2\<close> frames. A callback with a well-formed
  raw buffer on a queue of two frames removes the oldest and leaves the newer one followed
  by the new frame, and a callback on a queue of at most two frames always returns (the
  blocking \<^verbatim>\<open>put\<close> is never reached on a full queue). A timed \<^verbatim>\<open>get\<close> on an empty queue
  raises \<^verbatim>\<open>queue.Empty\<close>; when the stages before the frame handling of a pass left the
  display and the stream active and the queue is still empty after the callbacks of that
  pass, the pass ends by \<^verbatim>\<open>continue\<close> after the timeout of half a second: nothing is
  drawn, no error is reported, and the loop goes on with the next pass.
\<close>

theorem frame_queue_drop_oldest:
  "(uf_data f = Some mem \<and> uf_width f = CAM_WIDTH \<and> uf_height f = CAM_HEIGHT
      \<and> uf_data_bytes f = CAM_WIDTH * CAM_HEIGHT * 2 \<longrightarrow>
      py_frame_callback (Some f) [oldest, newer] =
        Some ([], [newer, \<lparr>nd_shape = [CAM_HEIGHT, CAM_WIDTH, 2], nd_dtype = UInt8,
                           nd_contiguous = True,
                           nd_flat = map mem [0..<CAM_WIDTH * CAM_HEIGHT * 2]\<rparr>]))
   \<and> (length q \<le> BUF_SIZE \<longrightarrow> py_frame_callback frame q \<noteq> None)
   \<and> queue_get (1 / 2) ([] :: ndarray list) = Inl QueueEmpty
   \<and> (is_running s
        \<and> then_stage (then_stage (check_temperature t s) (button_a t)) (button_b t) = (Go, s1)
        \<and> display_active s1 \<and> stream_is_active s1
        \<and> frame_queue (deliver (arrivals t) s1) = [] \<longrightarrow>
        loop_iteration cv t s = (False, emit (GetTimeout (1 / 2)) (deliver (arrivals t) s1))
        \<and> viewer_loop cv (Tick t # rest) s =
            viewer_loop cv rest (emit (GetTimeout (1 / 2)) (deliver (arrivals t) s1)))"
proof (intro conjI impI)
  assume "uf_data f = Some mem \<and> uf_width f = CAM_WIDTH \<and> uf_height f = CAM_HEIGHT
      \<and> uf_data_bytes f = CAM_WIDTH * CAM_HEIGHT * 2"
  then show "py_frame_callback (Some f) [oldest, newer] =
        Some ([], [newer, \<lparr>nd_shape = [CAM_HEIGHT, CAM_WIDTH, 2], nd_dtype = UInt8,
                           nd_contiguous = True,
                           nd_flat = map mem [0..<CAM_WIDTH * CAM_HEIGHT * 2]\<rparr>])"
    by (simp add: callback_full_queue)
next
  assume "length q \<le> BUF_SIZE"
  then show "py_frame_callback frame q \<noteq> None"
    by (rule callback_never_blocks)
next
  show "queue_get (1 / 2) ([] :: ndarray list) = Inl QueueEmpty"
    by (simp add: queue_get_def)
next
  assume a: "is_running s
        \<and> then_stage (then_stage (check_temperature t s) (button_a t)) (button_b t) = (Go, s1)
        \<and> display_active s1 \<and> stream_is_active s1
        \<and> frame_queue (deliver (arrivals t) s1) = []"
  then have "loop_body cv t s =
      (Continue, emit (GetTimeout (1 / 2)) (deliver (arrivals t) s1))"
    by (simp add: loop_body_def then_stage_def frame_handling_empty)
  then show i: "loop_iteration cv t s =
      (False, emit (GetTimeout (1 / 2)) (deliver (arrivals t) s1))"
    by (simp add: loop_iteration_def)
  show "viewer_loop cv (Tick t # rest) s =
            viewer_loop cv rest (emit (GetTimeout (1 / 2)) (deliver (arrivals t) s1))"
    using a i by simp
qed


theorem frame_queue_drop_oldest_witness:
  "py_frame_callback
      (Some \<lparr>uf_data = Some (\<lambda>i. 9), uf_width = 160, uf_height = 120, uf_data_bytes = 38400\<rparr>)
      [frombuffer (\<lambda>i. 1) 4, frombuffer (\<lambda>i. 2) 4] =
     Some ([], [frombuffer (\<lambda>i. 2) 4,
                \<lparr>nd_shape = [CAM_HEIGHT, CAM_WIDTH, 2], nd_dtype = UInt8, nd_contiguous = True,
                 nd_flat = map (\<lambda>i. 9) [0..<CAM_WIDTH * CAM_HEIGHT * 2]\<rparr>])
   \<and> py_frame_callback None [frombuffer (\<lambda>i. 1) 4, frombuffer (\<lambda>i. 2) 4] \<noteq> None
   \<and> loop_iteration
        \<lparr>uyvy_to_gray = (\<lambda>a. a), applyColorMap_id = (\<lambda>a c. gray2bgr a),
         applyColorMap_lut = (\<lambda>a l. Inr (gray2bgr a))\<rparr>
        \<lparr>current_time = 1, sensor = SensorMissing, shutdown_ok = True, buttonA_value = True,
         buttonB_value = True, start_res = 0, stop_raises = False, arrivals = []\<rparr>
        ((blank_viewer 0)\<lparr>stream_is_active := True\<rparr>) =
       (False, emit (GetTimeout (1 / 2)) ((blank_viewer 0)\<lparr>stream_is_active := True\<rparr>))"
proof -
  let ?f = "\<lparr>uf_data = Some (\<lambda>i. 9), uf_width = 160, uf_height = 120, uf_data_bytes = 38400\<rparr>"
  let ?cv = "\<lparr>uyvy_to_gray = (\<lambda>a. a), applyColorMap_id = (\<lambda>a c. gray2bgr a),
         applyColorMap_lut = (\<lambda>a l. Inr (gray2bgr a))\<rparr>"
  let ?t = "\<lparr>current_time = 1, sensor = SensorMissing, shutdown_ok = True,
         buttonA_value = True, buttonB_value = True, start_res = 0, stop_raises = False,
         arrivals = []\<rparr>"
  let ?s = "(blank_viewer 0)\<lparr>stream_is_active := True\<rparr>"
  have st: "then_stage (then_stage (check_temperature ?t ?s) (button_a ?t)) (button_b ?t)
              = (Go, ?s)"
    by (simp add: then_stage_def check_temperature_def button_a_def button_b_def
        blank_viewer_def CPU_TEMP_SHUTDOWN_CHECK_INTERVAL_S_def)
  have h: "is_running ?s \<and> display_active ?s \<and> stream_is_active ?s
           \<and> frame_queue (deliver (arrivals ?t) ?s) = []"
    by (simp add: blank_viewer_def)
  show ?thesis
    using st h
      frame_queue_drop_oldest [of ?f "\<lambda>i. 9" "frombuffer (\<lambda>i. 1) 4" "frombuffer (\<lambda>i. 2) 4"
        "[frombuffer (\<lambda>i. 1) 4, frombuffer (\<lambda>i. 2) 4]" None ?s ?t ?s ?cv "[]"]
    by (simp add: CAM_WIDTH_def CAM_HEIGHT_def BUF_SIZE_def)
qed

subsection \<open>Automatic gain\<close>

lemma cvRound_close: "\<bar>real_of_int (cvRound x) - x\<bar> \<le> 1 / 2"
proof -
  have "real_of_int \<lfloor>x\<rfloor> \<le> x" and "x < real_of_int \<lfloor>x\<rfloor> + 1"
    by linarith+
  then show ?thesis
    by (auto simp: cvRound_def Let_def)
qed

lemma cvRound_of_int: "cvRound (real_of_int n) = n"
  by (simp add: cvRound_def)

lemma cvRound_range:
  assumes "0 \<le> x" and "x \<le> 255"
  shows "0 \<le> cvRound x \<and> cvRound x \<le> 255"
  using cvRound_close [of x] assms by linarith

lemma cvRound_mono:
  assumes "x \<le> y"
  shows "cvRound x \<le> cvRound y"
proof (cases "x = y")
  case True
  then show ?thesis by simp
next
  case False
  then show ?thesis
    using assms cvRound_close [of x] cvRound_close [of y] by linarith
qed

lemma float_of_saturate_uint8:
  "0 \<le> v \<Longrightarrow> v \<le> 255 \<Longrightarrow> float_of (saturate_uint8 v) = real_of_int v"
  unfolding float_of_def by (simp add: saturate_uint8_def uint_word_of_int)

lemma float_of_less_iff: "float_of a < float_of b \<longleftrightarrow> a < b"
  unfolding float_of_def by (simp only: of_int_less_iff word_less_def)

lemma float_of_le_iff: "float_of a \<le> float_of b \<longleftrightarrow> a \<le> b"
  unfolding float_of_def by (simp only: of_int_le_iff word_le_def)

lemma float_of_eq_iff: "float_of a = float_of b \<longleftrightarrow> a = b"
  unfolding float_of_def by (simp only: of_int_eq_iff word_uint_eq_iff)

lemma float_of_numerals: "float_of 0 = 0" "float_of 255 = 255"
  unfolding float_of_def by simp_all

lemma fold_min_le: "v \<in> set (x # xs) \<Longrightarrow> fold min xs x \<le> (v :: uint8)"
  using Min_le [of "set (x # xs)" v] by (simp only: Min.set_eq_fold [symmetric]) simp

lemma le_fold_max: "v \<in> set (x # xs) \<Longrightarrow> (v :: uint8) \<le> fold max xs x"
  using Max_ge [of "set (x # xs)" v] by (simp only: Max.set_eq_fold [symmetric]) simp

lemma scaled_value:
  fixes a l d :: real
  shows "a * (255 / d) + - l * (255 / d) = 255 * (a - l) / d"
  by (simp add: algebra_simps diff_divide_distrib)

lemma scaled_range:
  fixes v lo hi :: real
  assumes "lo < hi" and "lo \<le> v" and "v \<le> hi"
  shows "0 \<le> 255 * (v - lo) / (hi - lo)" and "255 * (v - lo) / (hi - lo) \<le> 255"
  using assms by (simp_all add: field_simps)

lemma convertScaleAbs_gain:
  assumes "lo < hi" and "lo \<le> float_of x" and "float_of x \<le> hi"
  shows "float_of (convertScaleAbs (255 / (hi - lo)) (- lo * (255 / (hi - lo))) x)
         = real_of_int (cvRound (255 * (float_of x - lo) / (hi - lo)))"
proof -
  define y where "y = 255 * (float_of x - lo) / (hi - lo)"
  have r: "0 \<le> y" "y \<le> 255"
    unfolding y_def using assms by (rule scaled_range)+
  have "convertScaleAbs (255 / (hi - lo)) (- lo * (255 / (hi - lo))) x
        = saturate_uint8 (cvRound \<bar>y\<bar>)"
    unfolding convertScaleAbs_def y_def scaled_value ..
  also have "\<bar>y\<bar> = y" using r by simp
  finally show ?thesis
    unfolding y_def [symmetric] using cvRound_range [OF r]
    by (simp add: float_of_saturate_uint8)
qed

lemma auto_gain_flat:
  assumes "nd_flat g = x # xs" and "\<not> fold min xs x < fold max xs x"
  shows "auto_gain g = Inr g"
  using assms by (simp add: auto_gain_def Let_def float_of_less_iff)

lemma auto_gain_scaled:
  assumes "nd_flat g = x # xs" and "fold min xs x < fold max xs x"
  shows "auto_gain g =
           Inr (g\<lparr>nd_dtype := UInt8,
                  nd_flat := map (convertScaleAbs
                      (255 / (float_of (fold max xs x) - float_of (fold min xs x)))
                      (- float_of (fold min xs x)
                         * (255 / (float_of (fold max xs x) - float_of (fold min xs x)))))
                    (nd_flat g)\<rparr>)"
  using assms by (simp add: auto_gain_def Let_def float_of_less_iff)


text \<open>
  Claim C5. Let \<open>lo\<close> and \<open>hi\<close> be the smallest and the largest intensity of a grayscale
  frame with at least one pixel; \<open>lo \<le> hi\<close>. If \<open>lo < hi\<close>, automatic gain returns a frame
  of as many bytes in which a pixel of intensity \<open>v\<close> has the intensity nearest to
  \<open>255 * (v - lo) / (hi - lo)\<close> (within one half, the arithmetic being exact), so that
  \<open>lo\<close> becomes 0 and \<open>hi\<close> becomes 255, and a brighter pixel never becomes darker than a
  darker one. If \<open>lo = hi\<close> the frame is returned as it is; the quotient by \<open>hi - lo\<close> is
  formed in the first case only.
\<close>

theorem auto_gain_affine:
  assumes "nd_flat g = x # xs"
  shows "fold min xs x \<le> fold max xs x
     \<and> (fold min xs x < fold max xs x \<longrightarrow>
          (\<exists>g'. auto_gain g = Inr g' \<and> length (nd_flat g') = length (nd_flat g)
             \<and> (\<forall>i < length (nd_flat g).
                   \<bar>float_of (nd_flat g' ! i)
                      - 255 * (float_of (nd_flat g ! i) - float_of (fold min xs x))
                        / (float_of (fold max xs x) - float_of (fold min xs x))\<bar> \<le> 1 / 2
                   \<and> (nd_flat g ! i = fold min xs x \<longrightarrow> nd_flat g' ! i = 0)
                   \<and> (nd_flat g ! i = fold max xs x \<longrightarrow> nd_flat g' ! i = 255))
             \<and> (\<forall>i < length (nd_flat g). \<forall>j < length (nd_flat g).
                   nd_flat g ! i \<le> nd_flat g ! j \<longrightarrow> nd_flat g' ! i \<le> nd_flat g' ! j)))
     \<and> (fold min xs x = fold max xs x \<longrightarrow> auto_gain g = Inr g)"
proof (intro conjI impI)
  have "x \<in> set (x # xs)" by simp
  then have "fold min xs x \<le> x" and "x \<le> fold max xs x"
    by (rule fold_min_le, rule le_fold_max)
  then show "fold min xs x \<le> fold max xs x"
    by simp
  show "auto_gain g = Inr g" if "fold min xs x = fold max xs x"
    using assms that by (simp add: auto_gain_flat)
  show "\<exists>g'. auto_gain g = Inr g' \<and> length (nd_flat g') = length (nd_flat g)
             \<and> (\<forall>i < length (nd_flat g).
                   \<bar>float_of (nd_flat g' ! i)
                      - 255 * (float_of (nd_flat g ! i) - float_of (fold min xs x))
                        / (float_of (fold max xs x) - float_of (fold min xs x))\<bar> \<le> 1 / 2
                   \<and> (nd_flat g ! i = fold min xs x \<longrightarrow> nd_flat g' ! i = 0)
                   \<and> (nd_flat g ! i = fold max xs x \<longrightarrow> nd_flat g' ! i = 255))
             \<and> (\<forall>i < length (nd_flat g). \<forall>j < length (nd_flat g).
                   nd_flat g ! i \<le> nd_flat g ! j \<longrightarrow> nd_flat g' ! i \<le> nd_flat g' ! j)"
    if lt: "fold min xs x < fold max xs x"
  proof -
    define lo where "lo = float_of (fold min xs x)"
    define hi where "hi = float_of (fold max xs x)"
    define f where "f = convertScaleAbs (255 / (hi - lo)) (- lo * (255 / (hi - lo)))"
    define y where "y v = 255 * (float_of v - lo) / (hi - lo)" for v
    define g' where "g' = g\<lparr>nd_dtype := UInt8, nd_flat := map f (nd_flat g)\<rparr>"
    have lh: "lo < hi"
      using lt by (simp add: lo_def hi_def float_of_less_iff)
    have ag: "auto_gain g = Inr g'"
      unfolding g'_def f_def lo_def hi_def using assms lt by (rule auto_gain_scaled)
    have bounds: "lo \<le> float_of v \<and> float_of v \<le> hi" if "v \<in> set (nd_flat g)" for v
      using that fold_min_le [of v x xs] le_fold_max [of v x xs] assms
      by (simp add: lo_def hi_def float_of_le_iff)
    have fv: "float_of (f v) = real_of_int (cvRound (y v))" if "v \<in> set (nd_flat g)" for v
      unfolding f_def y_def using lh bounds [OF that] by (intro convertScaleAbs_gain) simp_all
    have mono: "f v \<le> f w" if "v \<in> set (nd_flat g)" "w \<in> set (nd_flat g)" "v \<le> w" for v w
    proof -
      have "float_of v \<le> float_of w"
        using that(3) by (simp add: float_of_le_iff)
      then have "y v \<le> y w"
        unfolding y_def using lh by (simp add: divide_right_mono)
      then have "cvRound (y v) \<le> cvRound (y w)"
        by (rule cvRound_mono)
      then have "float_of (f v) \<le> float_of (f w)"
        using fv that(1,2) by simp
      then show ?thesis
        by (simp only: float_of_le_iff)
    qed
    have pix: "\<bar>float_of (nd_flat g' ! i) - y (nd_flat g ! i)\<bar> \<le> 1 / 2
        \<and> (nd_flat g ! i = fold min xs x \<longrightarrow> nd_flat g' ! i = 0)
        \<and> (nd_flat g ! i = fold max xs x \<longrightarrow> nd_flat g' ! i = 255)"
      if i: "i < length (nd_flat g)" for i
    proof -
      define v where "v = nd_flat g ! i"
      have m: "v \<in> set (nd_flat g)" using i by (simp add: v_def)
      have e: "nd_flat g' ! i = f v" using i by (simp add: g'_def v_def)
      have u: "float_of (f v) = real_of_int (cvRound (y v))" using m by (rule fv)
      have c: "\<bar>float_of (f v) - y v\<bar> \<le> 1 / 2"
        unfolding u by (rule cvRound_close)
      have z: "f v = 0" if "v = fold min xs x"
      proof -
        have "y v = real_of_int 0" using that by (simp add: y_def lo_def)
        then have "float_of (f v) = float_of 0"
          unfolding u by (simp add: cvRound_of_int float_of_numerals del: of_int_0 of_int_numeral)
        then show ?thesis by (simp only: float_of_eq_iff)
      qed
      have t: "f v = 255" if "v = fold max xs x"
      proof -
        have d: "hi - lo \<noteq> 0" using lh by simp
        have "y v = 255 * (hi - lo) / (hi - lo)"
          unfolding y_def using that by (simp only: hi_def)
        also have "\<dots> = 255"
          using d by (rule nonzero_mult_div_cancel_right)
        finally have "y v = real_of_int 255" by simp
        then have "float_of (f v) = float_of 255"
          unfolding u by (simp add: cvRound_of_int float_of_numerals del: of_int_0 of_int_numeral)
        then show ?thesis by (simp only: float_of_eq_iff)
      qed
      show ?thesis using c z t unfolding e v_def [symmetric] by simp
    qed
    have len: "length (nd_flat g') = length (nd_flat g)" by (simp add: g'_def)
    have mono': "\<forall>i < length (nd_flat g). \<forall>j < length (nd_flat g).
                   nd_flat g ! i \<le> nd_flat g ! j \<longrightarrow> nd_flat g' ! i \<le> nd_flat g' ! j"
      using mono by (simp add: g'_def)
    show ?thesis
      using ag len pix mono' unfolding y_def lo_def hi_def by blast
  qed
qed

theorem auto_gain_affine_witness:
  "(\<exists>g'. auto_gain \<lparr>nd_shape = [1, 3], nd_dtype = UInt8, nd_contiguous = True,
                     nd_flat = [50, 200, 125]\<rparr> = Inr g'
         \<and> nd_flat g' ! 0 = 0 \<and> nd_flat g' ! 1 = 255
         \<and> \<bar>float_of (nd_flat g' ! 2) - 255 * (125 - 50) / (200 - 50)\<bar> \<le> 1 / 2)
   \<and> auto_gain \<lparr>nd_shape = [1, 2], nd_dtype = UInt8, nd_contiguous = True,
                 nd_flat = [7, 7]\<rparr>
       = Inr \<lparr>nd_shape = [1, 2], nd_dtype = UInt8, nd_contiguous = True, nd_flat = [7, 7]\<rparr>"
proof -
  let ?g = "\<lparr>nd_shape = [1, 3], nd_dtype = UInt8, nd_contiguous = True,
             nd_flat = [50, 200, 125 :: uint8]\<rparr>"
  let ?h = "\<lparr>nd_shape = [1, 2], nd_dtype = UInt8, nd_contiguous = True,
             nd_flat = [7, 7 :: uint8]\<rparr>"
  have lo: "fold min [200, 125] (50 :: uint8) = 50" and hi: "fold max [200, 125] (50 :: uint8) = 200"
    by simp_all
  have fl: "float_of 50 = 50" "float_of 200 = 200" "float_of 125 = 125"
    by (simp_all add: float_of_def)
  have nf: "nd_flat ?g = 50 # [200, 125]" by simp
  have lt: "(50 :: uint8) < 200" by simp
  note th = auto_gain_affine [OF nf, unfolded lo hi]
  from th lt obtain g' where g1: "auto_gain ?g = Inr g'"
    and px: "\<And>i. i < length (nd_flat ?g) \<Longrightarrow>
               \<bar>float_of (nd_flat g' ! i)
                  - 255 * (float_of (nd_flat ?g ! i) - float_of 50)
                    / (float_of 200 - float_of 50)\<bar> \<le> 1 / 2
               \<and> (nd_flat ?g ! i = 50 \<longrightarrow> nd_flat g' ! i = 0)
               \<and> (nd_flat ?g ! i = 200 \<longrightarrow> nd_flat g' ! i = 255)"
    by blast
  have p0: "nd_flat g' ! 0 = 0" using px [of 0] by simp
  have p1: "nd_flat g' ! 1 = 255" using px [of 1] by simp
  have p2: "\<bar>float_of (nd_flat g' ! 2) - 255 * (125 - 50) / (200 - 50)\<bar> \<le> 1 / 2"
    using px [of 2] by (simp add: fl)
  have 1: "\<exists>g'. auto_gain ?g = Inr g'
         \<and> nd_flat g' ! 0 = 0 \<and> nd_flat g' ! 1 = 255
         \<and> \<bar>float_of (nd_flat g' ! 2) - 255 * (125 - 50) / (200 - 50)\<bar> \<le> 1 / 2"
    using g1 p0 p1 p2 by blast
  have 2: "auto_gain ?h = Inr ?h"
    using auto_gain_affine [of ?h 7 "[7]"] by simp
  from 1 2 show ?thesis by blast
qed

subsection \<open>The thermal check\<close>

lemma trace_emit [simp]: "trace (emit e s) = trace s @ [e]"
  by (simp add: emit_def)

lemma trace_logging [simp]: "trace (logging lvl msg s) = trace s @ [Log lvl msg]"
  by (simp add: logging_def)

lemma emit_fields [simp]:
  "is_running (emit e s) = is_running s"
  "display_active (emit e s) = display_active s"
  "stream_is_active (emit e s) = stream_is_active s"
  "frame_queue (emit e s) = frame_queue s"
  "uvc_devh (emit e s) = uvc_devh s"
  "backlight (emit e s) = backlight s"
  by (simp_all add: emit_def)

lemma logging_fields [simp]:
  "is_running (logging lvl msg s) = is_running s"
  "display_active (logging lvl msg s) = display_active s"
  "stream_is_active (logging lvl msg s) = stream_is_active s"
  "frame_queue (logging lvl msg s) = frame_queue s"
  "uvc_devh (logging lvl msg s) = uvc_devh s"
  "backlight (logging lvl msg s) = backlight s"
  by (simp_all add: logging_def)

lemma shutdown_pi_fields [simp]:
  "is_running (shutdown_pi ok s) = is_running s"
  "display_active (shutdown_pi ok s) = display_active s"
  "stream_is_active (shutdown_pi ok s) = stream_is_active s"
  by (simp_all add: shutdown_pi_def Let_def)

lemma trace_shutdown_pi:
  "trace (shutdown_pi ok s) =
     trace s @ [Log CRITICAL ''detected! Initiating shutdown NOW!'', ShutdownRequest]
       @ (if ok then []
          else [Log ERROR ''ERROR: Failed to initiate shutdown'',
                Log ERROR ''Manual shutdown may be required.''])"
  by (simp add: shutdown_pi_def Let_def)

lemma check_temperature_over:
  assumes "current_time t - last_temp_shutdown_check_time s > CPU_TEMP_SHUTDOWN_CHECK_INTERVAL_S"
    and "sensor t = SensorMilliC m"
    and "real_of_int m / 1000 > CPU_TEMP_SHUTDOWN_THRESHOLD_C"
  shows "check_temperature t s =
           (Break, emit (Sleep 10)
              (shutdown_pi (shutdown_ok t)
                 ((if current_time t - last_temp_log_time s > CPU_TEMP_LOG_INTERVAL_S
                   then (logging INFO ''CPU Temp'' s)\<lparr>last_temp_log_time := current_time t\<rparr>
                   else s)\<lparr>is_running := False\<rparr>)))"
  using assms by (simp add: check_temperature_def get_cpu_temperature_def Let_def)

text \<open>
  Claim C1. In a pass of the loop in which the thermal check is due (more than 30 s since
  the last one) and the sensor gives a reading above the threshold of 75.0 degrees, the
  loop ends in that pass whatever the display and stream flags are and whatever passes
  would follow: the running flag is cleared (the mode is SHUTTING_DOWN), the display and
  stream flags are as they were, and the trace continues with the critical report, the
  shutdown request and, last, the sleep of 10 s.
\<close>

theorem thermal_shutdown:
  assumes "is_running s"
    and "current_time t - last_temp_shutdown_check_time s > CPU_TEMP_SHUTDOWN_CHECK_INTERVAL_S"
    and "sensor t = SensorMilliC m"
    and "real_of_int m / 1000 > CPU_TEMP_SHUTDOWN_THRESHOLD_C"
  shows "\<exists>s'. viewer_loop cv (Tick t # rest) s = Some s'
           \<and> \<not> is_running s' \<and> operating_mode s' = SHUTTING_DOWN
           \<and> display_active s' = display_active s
           \<and> stream_is_active s' = stream_is_active s
           \<and> (\<exists>report. trace s' =
                 trace s @ report
                   @ [Log CRITICAL ''detected! Initiating shutdown NOW!'', ShutdownRequest]
                   @ (if shutdown_ok t then []
                      else [Log ERROR ''ERROR: Failed to initiate shutdown'',
                            Log ERROR ''Manual shutdown may be required.''])
                   @ [Sleep 10])"
proof -
  define s2 where "s2 = (if current_time t - last_temp_log_time s > CPU_TEMP_LOG_INTERVAL_S
                   then (logging INFO ''CPU Temp'' s)\<lparr>last_temp_log_time := current_time t\<rparr>
                   else s)"
  define s' where "s' = emit (Sleep 10) (shutdown_pi (shutdown_ok t) (s2\<lparr>is_running := False\<rparr>))"
  have c: "check_temperature t s = (Break, s')"
    unfolding s'_def s2_def using assms(2-4) by (rule check_temperature_over)
  have "loop_body cv t s = (Break, s')"
    by (simp add: loop_body_def c then_stage_def)
  then have "loop_iteration cv t s = (True, s')"
    by (simp add: loop_iteration_def)
  then have l: "viewer_loop cv (Tick t # rest) s = Some s'"
    using assms(1) by simp
  have f: "\<not> is_running s'" "display_active s' = display_active s"
    "stream_is_active s' = stream_is_active s"
    by (simp_all add: s'_def s2_def)
  have m: "operating_mode s' = SHUTTING_DOWN"
    using f(1) by (simp add: operating_mode_def)
  have "trace s2 = trace s @ (if current_time t - last_temp_log_time s > CPU_TEMP_LOG_INTERVAL_S
                              then [Log INFO ''CPU Temp''] else [])"
    by (simp add: s2_def)
  then have "\<exists>report. trace s' =
                 trace s @ report
                   @ [Log CRITICAL ''detected! Initiating shutdown NOW!'', ShutdownRequest]
                   @ (if shutdown_ok t then []
                      else [Log ERROR ''ERROR: Failed to initiate shutdown'',
                            Log ERROR ''Manual shutdown may be required.''])
                   @ [Sleep 10]"
    by (simp add: s'_def trace_shutdown_pi)
  with l f m show ?thesis by blast
qed

theorem thermal_shutdown_witness:
  "(\<exists>s'. viewer_loop
            \<lparr>uyvy_to_gray = (\<lambda>a. a), applyColorMap_id = (\<lambda>a c. gray2bgr a),
             applyColorMap_lut = (\<lambda>a l. Inr (gray2bgr a))\<rparr>
            [Tick \<lparr>current_time = 31, sensor = SensorMilliC 80000, shutdown_ok = True,
                   buttonA_value = True, buttonB_value = True, start_res = 0,
                   stop_raises = False, arrivals = []\<rparr>]
            (blank_viewer 0) = Some s'
         \<and> operating_mode s' = SHUTTING_DOWN \<and> display_active s')
   \<and> (\<exists>s'. viewer_loop
            \<lparr>uyvy_to_gray = (\<lambda>a. a), applyColorMap_id = (\<lambda>a c. gray2bgr a),
             applyColorMap_lut = (\<lambda>a l. Inr (gray2bgr a))\<rparr>
            [Tick \<lparr>current_time = 31, sensor = SensorMilliC 75001, shutdown_ok = True,
                   buttonA_value = True, buttonB_value = True, start_res = 0,
                   stop_raises = False, arrivals = []\<rparr>]
            ((blank_viewer 0)\<lparr>display_active := False\<rparr>) = Some s'
         \<and> operating_mode s' = SHUTTING_DOWN \<and> \<not> display_active s')"
proof -
  let ?cv = "\<lparr>uyvy_to_gray = (\<lambda>a. a), applyColorMap_id = (\<lambda>a c. gray2bgr a),
             applyColorMap_lut = (\<lambda>a l. Inr (gray2bgr a))\<rparr>"
  let ?t = "\<lparr>current_time = 31, sensor = SensorMilliC 80000, shutdown_ok = True,
                   buttonA_value = True, buttonB_value = True, start_res = 0,
                   stop_raises = False, arrivals = []\<rparr>"
  let ?u = "\<lparr>current_time = 31, sensor = SensorMilliC 75001, shutdown_ok = True,
                   buttonA_value = True, buttonB_value = True, start_res = 0,
                   stop_raises = False, arrivals = []\<rparr>"
  have 1: "\<exists>s'. viewer_loop ?cv [Tick ?t] (blank_viewer 0) = Some s'
         \<and> operating_mode s' = SHUTTING_DOWN \<and> display_active s'"
    using thermal_shutdown [of "blank_viewer 0" ?t 80000 ?cv "[]"]
    by (simp add: blank_viewer_def CPU_TEMP_SHUTDOWN_CHECK_INTERVAL_S_def
        CPU_TEMP_SHUTDOWN_THRESHOLD_C_def) blast
  have 2: "\<exists>s'. viewer_loop ?cv [Tick ?u] ((blank_viewer 0)\<lparr>display_active := False\<rparr>)
           = Some s'
         \<and> operating_mode s' = SHUTTING_DOWN \<and> \<not> display_active s'"
    using thermal_shutdown [of "(blank_viewer 0)\<lparr>display_active := False\<rparr>" ?u 75001 ?cv "[]"]
    by (simp add: blank_viewer_def CPU_TEMP_SHUTDOWN_CHECK_INTERVAL_S_def
        CPU_TEMP_SHUTDOWN_THRESHOLD_C_def) blast
  from 1 2 show ?thesis by blast
qed

subsection \<open>The display toggle\<close>

lemma set_cpu_governor_fields [simp]:
  "is_running (set_cpu_governor g s) = is_running s"
  "display_active (set_cpu_governor g s) = display_active s"
  "stream_is_active (set_cpu_governor g s) = stream_is_active s"
  "frame_queue (set_cpu_governor g s) = frame_queue s"
  "uvc_devh (set_cpu_governor g s) = uvc_devh s"
  by (simp_all add: set_cpu_governor_def)

lemma trace_set_cpu_governor [simp]:
  "trace (set_cpu_governor g s) =
     trace s @ [Log INFO ''Attempting to set CPU governor'', SetGovernor g]"
  by (simp add: set_cpu_governor_def)

lemma stop_uvc_stream_active:
  assumes "stream_is_active s" and "uvc_devh s"
  shows "stop_uvc_stream r s =
           (s\<lparr>stream_is_active := False, frame_queue := [],
              trace := trace s @ [StopStreaming,
                 if r then Log WARNING ''error stopping UVC stream''
                 else Log INFO ''UVC stream stopped for power save.'',
                 Log INFO ''Cleared frames from the queue.'']\<rparr>)"
  using assms
  by (simp add: stop_uvc_stream_def Let_def drain_queue_empty emit_def logging_def)

lemma start_uvc_stream_inactive:
  assumes "\<not> stream_is_active s" and "uvc_devh s"
  shows "start_uvc_stream res now s =
           (if res < 0
            then s\<lparr>stream_is_active := False,
                   trace := trace s @ [Log INFO ''Attempting to start UVC stream...'',
                      StartStreaming, Log ERROR ''uvc_start_streaming failed'']\<rparr>
            else s\<lparr>stream_is_active := True, last_display_time := now,
                   trace := trace s @ [Log INFO ''Attempting to start UVC stream...'',
                      StartStreaming, Log INFO ''UVC stream started.'']\<rparr>)"
  using assms
  by (simp add: start_uvc_stream_def Let_def emit_def logging_def)

lemma button_b_to_powersave:
  assumes "buttonB s" and "\<not> buttonB_value t"
    and "current_time t - last_button_b_time s > 3 / 10"
    and "backlight s" and "uvc_devh s" and "display_active s" and "stream_is_active s"
  shows "button_b t s =
           (Go, s\<lparr>last_button_b_time := current_time t, display_active := False,
                  stream_is_active := False, frame_queue := [],
                  trace := trace s @
                    [Backlight False, Log INFO ''Button B Pressed: Toggled display'',
                     StopStreaming,
                     if stop_raises t then Log WARNING ''error stopping UVC stream''
                     else Log INFO ''UVC stream stopped for power save.'',
                     Log INFO ''Cleared frames from the queue.'',
                     Log INFO ''Attempting to set CPU governor'',
                     SetGovernor CPU_GOVERNOR_SAVE, Blit BlackScreen]\<rparr>)"
  using assms
  by (simp add: button_b_def Let_def stop_uvc_stream_active)
     (simp add: emit_def logging_def set_cpu_governor_def)

lemma button_b_to_running:
  assumes "buttonB s" and "\<not> buttonB_value t"
    and "current_time t - last_button_b_time s > 3 / 10"
    and "backlight s" and "uvc_devh s" and "\<not> display_active s" and "\<not> stream_is_active s"
  shows "button_b t s =
           (Go, s\<lparr>last_button_b_time := current_time t, display_active := True,
                  stream_is_active := (0 \<le> start_res t),
                  last_display_time :=
                    (if 0 \<le> start_res t then current_time t else last_display_time s),
                  trace := trace s @
                    [Backlight True, Log INFO ''Button B Pressed: Toggled display'',
                     Log INFO ''Attempting to set CPU governor'',
                     SetGovernor CPU_GOVERNOR_RUN,
                     Log INFO ''Attempting to start UVC stream...'', StartStreaming,
                     if start_res t < 0 then Log ERROR ''uvc_start_streaming failed''
                     else Log INFO ''UVC stream started.'']\<rparr>)"
  using assms
  by (simp add: button_b_def Let_def start_uvc_stream_inactive)
     (simp add: emit_def logging_def set_cpu_governor_def)


text \<open>
  Claim C6. The toggle event is a press of button B outside its debounce window of 0.3 s,
  with the backlight pin and the camera handle present, as they are once start-up has
  succeeded. Issued while the display and the stream are active (RUNNING), it asks libuvc
  to stop the stream, clears the stream flag, leaves the frame queue empty and clears the
  display flag (POWERSAVE). Issued again after the debounce window, it sets the display
  flag (RUNNING) and asks libuvc to start the stream; the stream flag is set when libuvc
  accepts the start, that is when its result code is not negative.
\<close>

theorem toggle_running_powersave:
  assumes "is_running s" and "buttonB s" and "backlight s" and "uvc_devh s"
    and "display_active s" and "stream_is_active s"
    and "\<not> buttonB_value t" and "current_time t - last_button_b_time s > 3 / 10"
    and "\<not> buttonB_value u" and "current_time u - current_time t > 3 / 10"
  shows "\<exists>s1 s2. operating_mode s = RUNNING
           \<and> button_b t s = (Go, s1)
           \<and> operating_mode s1 = POWERSAVE \<and> \<not> stream_is_active s1 \<and> frame_queue s1 = []
           \<and> trace s1 = trace s @
                [Backlight False, Log INFO ''Button B Pressed: Toggled display'',
                 StopStreaming,
                 if stop_raises t then Log WARNING ''error stopping UVC stream''
                 else Log INFO ''UVC stream stopped for power save.'',
                 Log INFO ''Cleared frames from the queue.'',
                 Log INFO ''Attempting to set CPU governor'',
                 SetGovernor CPU_GOVERNOR_SAVE, Blit BlackScreen]
           \<and> button_b u s1 = (Go, s2)
           \<and> operating_mode s2 = RUNNING
           \<and> trace s2 = trace s1 @
                [Backlight True, Log INFO ''Button B Pressed: Toggled display'',
                 Log INFO ''Attempting to set CPU governor'',
                 SetGovernor CPU_GOVERNOR_RUN,
                 Log INFO ''Attempting to start UVC stream...'', StartStreaming,
                 if start_res u < 0 then Log ERROR ''uvc_start_streaming failed''
                 else Log INFO ''UVC stream started.'']
           \<and> (stream_is_active s2 \<longleftrightarrow> 0 \<le> start_res u)"
proof -
  define s1 where "s1 = s\<lparr>last_button_b_time := current_time t, display_active := False,
                  stream_is_active := False, frame_queue := [],
                  trace := trace s @
                    [Backlight False, Log INFO ''Button B Pressed: Toggled display'',
                     StopStreaming,
                     if stop_raises t then Log WARNING ''error stopping UVC stream''
                     else Log INFO ''UVC stream stopped for power save.'',
                     Log INFO ''Cleared frames from the queue.'',
                     Log INFO ''Attempting to set CPU governor'',
                     SetGovernor CPU_GOVERNOR_SAVE, Blit BlackScreen]\<rparr>"
  define s2 where "s2 = s1\<lparr>last_button_b_time := current_time u, display_active := True,
                  stream_is_active := (0 \<le> start_res u),
                  last_display_time :=
                    (if 0 \<le> start_res u then current_time u else last_display_time s1),
                  trace := trace s1 @
                    [Backlight True, Log INFO ''Button B Pressed: Toggled display'',
                     Log INFO ''Attempting to set CPU governor'',
                     SetGovernor CPU_GOVERNOR_RUN,
                     Log INFO ''Attempting to start UVC stream...'', StartStreaming,
                     if start_res u < 0 then Log ERROR ''uvc_start_streaming failed''
                     else Log INFO ''UVC stream started.'']\<rparr>"
  have b1: "button_b t s = (Go, s1)"
    unfolding s1_def using assms(2,7,8,3,4,5,6) by (rule button_b_to_powersave)
  have p: "buttonB s1" "backlight s1" "uvc_devh s1" "\<not> display_active s1"
    "\<not> stream_is_active s1" "current_time u - last_button_b_time s1 > 3 / 10"
    "is_running s1"
    using assms by (simp_all add: s1_def)
  have b2: "button_b u s1 = (Go, s2)"
    unfolding s2_def using p(1) assms(9) p(6) p(2,3,4,5) by (rule button_b_to_running)
  have m: "operating_mode s = RUNNING" "operating_mode s1 = POWERSAVE"
    "operating_mode s2 = RUNNING"
    using assms(1,5) by (simp_all add: operating_mode_def s1_def s2_def)
  have q: "frame_queue s1 = []" "stream_is_active s2 \<longleftrightarrow> 0 \<le> start_res u"
    by (simp_all add: s1_def s2_def)
  have t1: "trace s1 = trace s @
                [Backlight False, Log INFO ''Button B Pressed: Toggled display'',
                 StopStreaming,
                 if stop_raises t then Log WARNING ''error stopping UVC stream''
                 else Log INFO ''UVC stream stopped for power save.'',
                 Log INFO ''Cleared frames from the queue.'',
                 Log INFO ''Attempting to set CPU governor'',
                 SetGovernor CPU_GOVERNOR_SAVE, Blit BlackScreen]"
    by (simp add: s1_def)
  have t2: "trace s2 = trace s1 @
                [Backlight True, Log INFO ''Button B Pressed: Toggled display'',
                 Log INFO ''Attempting to set CPU governor'',
                 SetGovernor CPU_GOVERNOR_RUN,
                 Log INFO ''Attempting to start UVC stream...'', StartStreaming,
                 if start_res u < 0 then Log ERROR ''uvc_start_streaming failed''
                 else Log INFO ''UVC stream started.'']"
    by (simp add: s2_def)
  show ?thesis
    using b1 b2 m p(5) q t1 t2 by blast
qed

theorem toggle_running_powersave_witness:
  "\<exists>s1 s2.
     button_b \<lparr>current_time = 1, sensor = SensorMissing, shutdown_ok = True,
               buttonA_value = True, buttonB_value = False, start_res = 0,
               stop_raises = False, arrivals = []\<rparr>
       ((blank_viewer 0)\<lparr>buttonB := True, backlight := True, uvc_devh := True,
                          stream_is_active := True,
                          frame_queue := [frombuffer (\<lambda>i. 1) 4]\<rparr>) = (Go, s1)
     \<and> operating_mode s1 = POWERSAVE \<and> \<not> stream_is_active s1 \<and> frame_queue s1 = []
     \<and> button_b \<lparr>current_time = 2, sensor = SensorMissing, shutdown_ok = True,
               buttonA_value = True, buttonB_value = False, start_res = 0,
               stop_raises = False, arrivals = []\<rparr> s1 = (Go, s2)
     \<and> operating_mode s2 = RUNNING \<and> stream_is_active s2"
proof -
  let ?t = "\<lparr>current_time = 1, sensor = SensorMissing, shutdown_ok = True,
               buttonA_value = True, buttonB_value = False, start_res = 0,
               stop_raises = False, arrivals = []\<rparr>"
  let ?u = "\<lparr>current_time = 2, sensor = SensorMissing, shutdown_ok = True,
               buttonA_value = True, buttonB_value = False, start_res = 0,
               stop_raises = False, arrivals = []\<rparr>"
  let ?s = "(blank_viewer 0)\<lparr>buttonB := True, backlight := True, uvc_devh := True,
                          stream_is_active := True,
                          frame_queue := [frombuffer (\<lambda>i. 1) 4]\<rparr>"
  have h: "is_running ?s" "buttonB ?s" "backlight ?s" "uvc_devh ?s" "display_active ?s"
    "stream_is_active ?s" "\<not> buttonB_value ?t"
    "current_time ?t - last_button_b_time ?s > 3 / 10"
    "\<not> buttonB_value ?u" "current_time ?u - current_time ?t > 3 / 10"
    by (simp_all add: blank_viewer_def)
  obtain s1 s2 where "button_b ?t ?s = (Go, s1)" "operating_mode s1 = POWERSAVE"
    "\<not> stream_is_active s1" "frame_queue s1 = []" "button_b ?u s1 = (Go, s2)"
    "operating_mode s2 = RUNNING" "stream_is_active s2 \<longleftrightarrow> 0 \<le> start_res ?u"
    using toggle_running_powersave [OF h] by blast
  then show ?thesis
    by (intro exI [of _ s1] exI [of _ s2]) simp
qed

subsection \<open>Colour mapping with a custom table\<close>

lemma deliver_fields [simp]:
  "is_running (deliver fs s) = is_running s"
  "display_active (deliver fs s) = display_active s"
  "stream_is_active (deliver fs s) = stream_is_active s"
  "current_colormap (deliver fs s) = current_colormap s"
  "start_time (deliver fs s) = start_time s"
  by (induction fs arbitrary: s; simp add: emits_def split: option.splits)+

lemma apply_colormap_fallback:
  assumes "current_colormap s = Custom lut"
    and "\<not> (nd_shape lut = [256, 1, 3] \<and> nd_dtype lut = UInt8 \<and> nd_contiguous lut
             \<and> nd_size lut = 768)
         \<or> applyColorMap_lut cv g lut = Inl Cv2Error"
  shows "apply_colormap cv g s =
           (Inr (gray2bgr g),
            logging ERROR (if lut_checks g lut then ''cv2.applyColorMap error!''
                           else ''Custom LUT failed validation right before use'') s)"
  using assms by (auto simp: apply_colormap_def lut_checks_def Let_def)

lemma update_fps_fields [simp]:
  "is_running (update_fps t s) = is_running s"
  "current_colormap (update_fps t s) = current_colormap s"
  "colormaps (update_fps t s) = colormaps s"
  by (simp_all add: update_fps_def Let_def logging_def emit_def)

lemma trace_update_fps:
  "trace (update_fps t s) =
     trace s @ (if current_time t - start_time s \<ge> 5 then [Log DEBUG ''Display FPS''] else [])"
  by (simp add: update_fps_def Let_def)

text \<open>
  Claim C9. Take a pass of the loop that fetches a frame while the selected colormap is a
  custom table. If the table is not a contiguous \<open>256 \<times> 1 \<times> 3\<close> array of 768 bytes, or
  \<^verbatim>\<open>cv2.applyColorMap\<close> raises \<^verbatim>\<open>cv2.error\<close>, the colour image is the grayscale frame
  copied into the three channels and an error is reported. The pass draws that image and
  ends normally: no exception reaches the handler of the loop, the running flag and the
  selected colormap are as before, and the loop goes on with the next pass.
\<close>

theorem custom_table_fallback:
  assumes "current_colormap s1 = Custom lut"
    and "\<not> (nd_shape lut = [256, 1, 3] \<and> nd_dtype lut = UInt8 \<and> nd_contiguous lut
             \<and> nd_size lut = 768)
         \<or> applyColorMap_lut cv g lut = Inl Cv2Error"
    and "is_running s"
    and "then_stage (then_stage (check_temperature t s) (button_a t)) (button_b t) = (Go, s1)"
    and "display_active s1" and "stream_is_active s1"
    and "frame_queue (deliver (arrivals t) s1) = frame_uyvy # q"
    and "auto_gain (uyvy_to_gray cv frame_uyvy) = Inr g"
  shows "\<exists>msg s2. apply_colormap cv g s1 = (Inr (gray2bgr g), logging ERROR msg s1)
           \<and> loop_iteration cv t s = (False, s2)
           \<and> viewer_loop cv (Tick t # rest) s = viewer_loop cv rest s2
           \<and> is_running s2 = is_running s1 \<and> current_colormap s2 = Custom lut
           \<and> trace s2 = trace (deliver (arrivals t) s1)
                @ [Log ERROR msg, Blit (Picture (gray2bgr g))]
                @ (if current_time t - start_time s1 \<ge> 5 then [Log DEBUG ''Display FPS'']
                   else [])"
proof -
  define msg where "msg = (if lut_checks g lut then ''cv2.applyColorMap error!''
                           else ''Custom LUT failed validation right before use'')"
  define d where "d = (deliver (arrivals t) s1)\<lparr>frame_queue := q\<rparr>"
  define s2 where "s2 = update_fps t (emit (Blit (Picture (gray2bgr g))) (logging ERROR msg d))"
  have a1: "apply_colormap cv g s1 = (Inr (gray2bgr g), logging ERROR msg s1)"
    unfolding msg_def using assms(1,2) by (rule apply_colormap_fallback)
  have cd: "current_colormap d = Custom lut"
    by (simp add: d_def assms(1))
  have a2: "apply_colormap cv g d = (Inr (gray2bgr g), logging ERROR msg d)"
    unfolding msg_def using cd assms(2) by (rule apply_colormap_fallback)
  have r: "render cv t frame_uyvy d = (Go, s2)"
    by (simp add: render_def assms(8) a2 s2_def)
  have fh: "frame_handling cv t s1 = (Go, s2)"
    using assms(5,6,7) r by (simp add: frame_handling_def queue_get_def Let_def d_def)
  have "loop_body cv t s = (Go, s2)"
    unfolding loop_body_def assms(4) by (simp add: then_stage_def fh)
  then have li: "loop_iteration cv t s = (False, s2)"
    by (simp add: loop_iteration_def)
  then have vl: "viewer_loop cv (Tick t # rest) s = viewer_loop cv rest s2"
    using assms(3) by simp
  have f: "is_running s2 = is_running s1" "current_colormap s2 = Custom lut"
    by (simp_all add: s2_def d_def assms(1) emit_def logging_def)
  have ts: "trace s2 = trace (deliver (arrivals t) s1)
                @ [Log ERROR msg, Blit (Picture (gray2bgr g))]
                @ (if current_time t - start_time s1 \<ge> 5 then [Log DEBUG ''Display FPS'']
                   else [])"
    by (simp add: s2_def trace_update_fps d_def emit_def logging_def)
  show ?thesis
    using a1 li vl f ts by blast
qed


theorem custom_table_fallback_witness:
  "\<exists>msg s2.
     loop_iteration
       \<lparr>uyvy_to_gray = (\<lambda>a. a), applyColorMap_id = (\<lambda>a c. gray2bgr a),
        applyColorMap_lut = (\<lambda>a l. Inl Cv2Error)\<rparr>
       \<lparr>current_time = 1, sensor = SensorMissing, shutdown_ok = True, buttonA_value = True,
        buttonB_value = True, start_res = 0, stop_raises = False, arrivals = []\<rparr>
       ((blank_viewer 0)
          \<lparr>stream_is_active := True,
           current_colormap := Custom \<lparr>nd_shape = [2, 1, 3], nd_dtype = UInt8,
                                       nd_contiguous = True,
                                       nd_flat = [0, 0, 0, 255, 255, 255]\<rparr>,
           frame_queue := [\<lparr>nd_shape = [1, 2], nd_dtype = UInt8, nd_contiguous = True,
                            nd_flat = [7, 7]\<rparr>]\<rparr>) = (False, s2)
     \<and> is_running s2
     \<and> trace s2 = [Log ERROR msg, Blit (Picture [(7, 7, 7), (7, 7, 7)])]"
proof -
  let ?cv = "\<lparr>uyvy_to_gray = (\<lambda>a. a), applyColorMap_id = (\<lambda>a c. gray2bgr a),
        applyColorMap_lut = (\<lambda>a l. Inl Cv2Error)\<rparr>"
  let ?t = "\<lparr>current_time = 1, sensor = SensorMissing, shutdown_ok = True,
        buttonA_value = True, buttonB_value = True, start_res = 0, stop_raises = False,
        arrivals = []\<rparr>"
  let ?lut = "\<lparr>nd_shape = [2, 1, 3], nd_dtype = UInt8, nd_contiguous = True,
        nd_flat = [0, 0, 0, 255, 255, 255 :: uint8]\<rparr>"
  let ?g = "\<lparr>nd_shape = [1, 2], nd_dtype = UInt8, nd_contiguous = True,
        nd_flat = [7, 7 :: uint8]\<rparr>"
  let ?s = "(blank_viewer 0)\<lparr>stream_is_active := True, current_colormap := Custom ?lut,
        frame_queue := [?g]\<rparr>"
  have st: "then_stage (then_stage (check_temperature ?t ?s) (button_a ?t)) (button_b ?t)
              = (Go, ?s)"
    by (simp add: then_stage_def check_temperature_def button_a_def button_b_def
        blank_viewer_def CPU_TEMP_SHUTDOWN_CHECK_INTERVAL_S_def)
  have h: "current_colormap ?s = Custom ?lut"
    "\<not> (nd_shape ?lut = [256, 1, 3] \<and> nd_dtype ?lut = UInt8 \<and> nd_contiguous ?lut
        \<and> nd_size ?lut = 768)
     \<or> applyColorMap_lut ?cv ?g ?lut = Inl Cv2Error"
    "is_running ?s" "display_active ?s" "stream_is_active ?s"
    "frame_queue (deliver (arrivals ?t) ?s) = ?g # []"
    "auto_gain (uyvy_to_gray ?cv ?g) = Inr ?g"
    by (simp_all add: blank_viewer_def auto_gain_def)
  obtain msg s2 where "loop_iteration ?cv ?t ?s = (False, s2)"
    "is_running s2 = is_running ?s"
    "trace s2 = trace (deliver (arrivals ?t) ?s)
                @ [Log ERROR msg, Blit (Picture (gray2bgr ?g))]
                @ (if current_time ?t - start_time ?s \<ge> 5 then [Log DEBUG ''Display FPS'']
                   else [])"
    using custom_table_fallback [OF h(1,2,3) st h(4,5,6,7), of "[]"] by blast
  then have "loop_iteration ?cv ?t ?s = (False, s2) \<and> is_running s2
     \<and> trace s2 = [Log ERROR msg, Blit (Picture [(7, 7, 7), (7, 7, 7)])]"
    by (simp add: blank_viewer_def gray2bgr_def)
  then show ?thesis by blast
qed

subsection \<open>Loading external tables\<close>

lemma colormaps_logging [simp]: "colormaps (logging lvl msg s) = colormaps s"
  by (simp add: logging_def emit_def)

lemma colormaps_report_exception [simp]: "colormaps (report_exception e s) = colormaps s"
  by (cases e) (simp_all add: report_exception_def)

lemma collect_Inr:
  "collect xs = Inr ys \<Longrightarrow> length ys = length xs \<and> (\<forall>i < length xs. xs ! i = Inr (ys ! i))"
proof (induction xs arbitrary: ys)
  case Nil
  then show ?case by simp
next
  case (Cons x xs)
  then obtain a as where x: "x = Inr a" and c: "collect xs = Inr as" and ys: "ys = a # as"
    by (auto split: sum.splits)
  have "length as = length xs \<and> (\<forall>i < length xs. xs ! i = Inr (as ! i))"
    using Cons.IH [OF c] .
  then show ?case
    by (auto simp: x ys nth_Cons split: nat.splits)
qed

lemma collect_map_Inr: "collect (map Inr ys) = Inr ys"
  by (induction ys) simp_all

lemma to_uint8_byte: "0 \<le> k \<Longrightarrow> k \<le> 255 \<Longrightarrow> to_uint8 np_cast (PyInt k) = Inr (word_of_int k)"
  by (simp add: to_uint8_def)

lemma np_array_uint8_bytes:
  assumes "\<forall>c \<in> set ints. \<forall>k \<in> set c. 0 \<le> k \<and> k \<le> 255"
  shows "np_array_uint8 np_cast (map (map PyInt) ints) = Inr (map (map word_of_int) ints)"
proof -
  have "collect (map (to_uint8 np_cast) (map PyInt c)) = Inr (map word_of_int c)"
    if "c \<in> set ints" for c
  proof -
    have "map (to_uint8 np_cast) (map PyInt c) = map Inr (map word_of_int c)"
      using assms that by (simp add: to_uint8_byte)
    then show ?thesis by (simp only: collect_map_Inr)
  qed
  then have "map (\<lambda>c. collect (map (to_uint8 np_cast) c)) (map (map PyInt) ints)
             = map Inr (map (map word_of_int) ints)"
    by simp
  then show ?thesis
    unfolding np_array_uint8_def by (simp only: collect_map_Inr)
qed

lemma np_array_uint8_Inr:
  assumes "np_array_uint8 np_cast lut_values = Inr rows"
    and "list_all (\<lambda>c. length c = 3) lut_values"
  shows "length rows = length lut_values"
    and "\<And>i. i < length lut_values \<Longrightarrow> length (rows ! i) = 3"
    and "\<And>i c. i < length lut_values \<Longrightarrow> c < 3 \<Longrightarrow>
           to_uint8 np_cast (lut_values ! i ! c) = Inr (rows ! i ! c)"
proof -
  have a: "length rows = length lut_values
     \<and> (\<forall>i < length lut_values. collect (map (to_uint8 np_cast) (lut_values ! i)) = Inr (rows ! i))"
    using collect_Inr [OF assms(1) [unfolded np_array_uint8_def]] by simp
  then show "length rows = length lut_values" by simp
  have b: "length (rows ! i) = 3
     \<and> (\<forall>c < 3. to_uint8 np_cast (lut_values ! i ! c) = Inr (rows ! i ! c))"
    if "i < length lut_values" for i
  proof -
    have l: "length (lut_values ! i) = 3"
      using assms(2) that by (simp add: list_all_length)
    have "collect (map (to_uint8 np_cast) (lut_values ! i)) = Inr (rows ! i)"
      using a that by simp
    then show ?thesis
      using collect_Inr [of "map (to_uint8 np_cast) (lut_values ! i)" "rows ! i"] l by simp
  qed
  show "\<And>i. i < length lut_values \<Longrightarrow> length (rows ! i) = 3"
    using b by simp
  show "\<And>i c. i < length lut_values \<Longrightarrow> c < 3 \<Longrightarrow>
           to_uint8 np_cast (lut_values ! i ! c) = Inr (rows ! i ! c)"
    using b by simp
qed

lemma to_uint8_Inr:
  assumes "to_uint8 np_cast v = Inr b"
  shows "case v of
           PyInt k \<Rightarrow> if 0 \<le> k \<and> k \<le> 255 then uint b = k else np_cast v = Inr b
         | PyFloat x \<Rightarrow>
             if - 1 < x \<and> x < 256 then uint b = (if 0 \<le> x then \<lfloor>x\<rfloor> else \<lceil>x\<rceil>)
             else np_cast v = Inr b
         | PyObject r \<Rightarrow> np_cast v = Inr b"
proof (cases v)
  case (PyInt k)
  then show ?thesis
    using assms by (auto simp: to_uint8_def uint_word_of_int)
next
  case (PyFloat x)
  show ?thesis
  proof (cases "- 1 < x \<and> x < 256")
    case True
    define z where "z = (if 0 \<le> x then \<lfloor>x\<rfloor> else \<lceil>x\<rceil>)"
    have "0 \<le> z" and "z \<le> 255"
      using True unfolding z_def by (auto simp: le_floor_iff floor_le_iff le_ceiling_iff ceiling_le_iff)
    then have "uint (word_of_int z :: uint8) = z"
      by (simp add: uint_word_of_int)
    moreover have "b = word_of_int z"
      using assms True by (simp add: PyFloat to_uint8_def astype_uint8_def z_def)
    ultimately show ?thesis
      using True by (simp add: PyFloat z_def)
  next
    case False
    then show ?thesis
      using assms by (auto simp: PyFloat to_uint8_def)
  qed
next
  case (PyObject r)
  then show ?thesis
    using assms by (simp add: to_uint8_def)
qed

lemma rows_of_three:
  assumes "\<And>i. i < length rows \<Longrightarrow> length (rows ! i) = 3"
  shows "\<And>r. r \<in> set rows \<Longrightarrow> length r = 3" and "length (concat rows) = 3 * length rows"
proof -
  show r: "\<And>r. r \<in> set rows \<Longrightarrow> length r = 3"
    using assms by (auto simp: in_set_conv_nth)
  show "length (concat rows) = 3 * length rows"
    using r by (rule length_concat_rows)
qed

lemma lut_entry_rows:
  assumes "\<And>r. r \<in> set rows \<Longrightarrow> length r = 3" and "i < length rows"
  shows "take 3 (drop (3 * i) (concat rows)) = rows ! i"
  using assms
proof (induction rows arbitrary: i)
  case Nil
  then show ?case by simp
next
  case (Cons r rows)
  have l: "length r = 3" using Cons.prems(1) by simp
  show ?case
  proof (cases i)
    case 0
    then show ?thesis using l by simp
  next
    case (Suc k)
    then have "take 3 (drop (3 * k) (concat rows)) = rows ! k"
      using Cons.IH [of k] Cons.prems by simp
    then show ?thesis
      using l Suc by simp
  qed
qed

lemma load_lut_file_parsed:
  assumes "list_all (\<lambda>c. length c = 3) lut_values"
  shows "load_lut_file np_cast cv2_resize (lut_name, PyList (map PyTuple lut_values)) s =
           load_lut_values np_cast cv2_resize lut_name lut_values s"
proof -
  have "list_all is_tuple3 (map PyTuple lut_values)"
    using assms by (simp add: list_all_iff is_tuple3_def)
  moreover have "map tuple_items (map PyTuple lut_values) = lut_values"
    by (simp add: tuple_items_def comp_def)
  ultimately show ?thesis
    by (simp add: load_lut_file_def)
qed

lemma load_lut_values_error:
  "np_array_uint8 np_cast lut_values = Inl e \<Longrightarrow>
     load_lut_values np_cast cv2_resize lut_name lut_values s = report_exception e s"
  by (simp add: load_lut_values_def)

lemma load_lut_values_empty:
  "load_lut_values np_cast cv2_resize lut_name [] s =
     logging WARNING ''LUT file parsed but is empty. Skipping.'' s"
  by (simp add: load_lut_values_def np_array_uint8_def)

lemma load_lut_values_256:
  assumes "np_array_uint8 np_cast lut_values = Inr rows"
    and "list_all (\<lambda>c. length c = 3) lut_values" and "length lut_values = 256"
  shows "load_lut_values np_cast cv2_resize lut_name lut_values s =
           logging INFO ''Successfully loaded and processed custom LUT''
             (s\<lparr>colormaps := colormaps s @
                  [(lut_name, Custom \<lparr>nd_shape = [256, 1, 3], nd_dtype = UInt8,
                                      nd_contiguous = True, nd_flat = concat rows\<rparr>)]\<rparr>)"
proof -
  have l: "length rows = 256"
    using np_array_uint8_Inr(1) [OF assms(1,2)] assms(3) by simp
  have "\<And>i. i < length rows \<Longrightarrow> length (rows ! i) = 3"
    using np_array_uint8_Inr(1,2) [OF assms(1,2)] by simp
  then have c: "length (concat rows) = 768"
    using rows_of_three(2) [of rows] l by simp
  have r: "reshape [256, 1, 3] (of_rows rows) =
             Inr \<lparr>nd_shape = [256, 1, 3], nd_dtype = UInt8, nd_contiguous = True,
                  nd_flat = concat rows\<rparr>"
    using c by (simp add: reshape_def of_rows_def)
  show ?thesis
    unfolding load_lut_values_def assms(1) sum.case Let_def l r
    by (simp add: final_validation_def)
qed

lemma load_lut_values_resized:
  assumes "np_array_uint8 np_cast lut_values = Inr rows"
    and "list_all (\<lambda>c. length c = 3) lut_values"
    and "length lut_values \<noteq> 0" and "length lut_values \<noteq> 256"
  shows "load_lut_values np_cast cv2_resize lut_name lut_values s =
           (case cv2_resize \<lparr>nd_shape = [length lut_values, 1, 3], nd_dtype = UInt8,
                             nd_contiguous = True, nd_flat = concat rows\<rparr> of
              Inl e \<Rightarrow>
                logging ERROR ''Error resizing LUT. Skipping.''
                  (logging INFO ''LUT needs resizing to 256 entries.'' s)
            | Inr lut_resized \<Rightarrow>
                if length (nd_flat lut_resized) = 768
                then logging INFO ''Successfully loaded and processed custom LUT''
                       ((logging INFO ''LUT needs resizing to 256 entries.'' s)
                          \<lparr>colormaps := colormaps s @
                             [(lut_name, Custom (lut_resized\<lparr>nd_shape := [256, 1, 3],
                                                   nd_contiguous := True\<rparr>))]\<rparr>)
                else logging ERROR ''Error resizing LUT. Skipping.''
                       (logging INFO ''LUT needs resizing to 256 entries.'' s))"
proof -
  have l: "length rows = length lut_values"
    using np_array_uint8_Inr(1) [OF assms(1,2)] .
  have i: "lut_image_of rows = \<lparr>nd_shape = [length lut_values, 1, 3], nd_dtype = UInt8,
                             nd_contiguous = True, nd_flat = concat rows\<rparr>"
    by (simp add: lut_image_of_def of_rows_def l)
  show ?thesis
    using assms(3,4) unfolding load_lut_values_def assms(1) sum.case Let_def l
    by (simp add: resize_branch_def i reshape_def final_validation_def ascontiguousarray_def
        logging_def emit_def split: sum.splits)
qed

lemma float_of_range: "0 \<le> float_of a \<and> float_of a \<le> 255"
proof -
  have "(0 :: uint8) \<le> a" by simp
  moreover have "a \<le> (255 :: uint8)"
    using uint_lt2p [of a] by (simp add: word_le_def)
  ultimately have "float_of 0 \<le> float_of a" and "float_of a \<le> float_of 255"
    by (simp_all only: float_of_le_iff)
  then show ?thesis
    by (simp only: float_of_numerals)
qed

lemma float_of_word_of_int:
  "0 \<le> k \<Longrightarrow> k \<le> 255 \<Longrightarrow> float_of (word_of_int k) = real_of_int k"
  unfolding float_of_def by (simp add: uint_word_of_int)

lemma uint_lerp_byte:
  assumes "0 \<le> w" and "w \<le> 1"
  shows "uint (lerp_byte w a b) = \<lfloor>(1 - w) * float_of a + w * float_of b + 1 / 2\<rfloor>"
proof -
  define x where "x = (1 - w) * float_of a + w * float_of b"
  have a: "0 \<le> float_of a" "float_of a \<le> 255" and b: "0 \<le> float_of b" "float_of b \<le> 255"
    using float_of_range by simp_all
  have "0 \<le> (1 - w) * float_of a" and "0 \<le> w * float_of b"
    using assms a(1) b(1) by simp_all
  then have lo: "0 \<le> x" by (simp add: x_def)
  have "0 \<le> 1 - w" using assms(2) by simp
  then have "(1 - w) * float_of a \<le> (1 - w) * 255"
    using a(2) by (rule mult_left_mono [rotated])
  moreover have "w * float_of b \<le> w * 255"
    using b(2) assms(1) by (rule mult_left_mono)
  ultimately have "x \<le> (1 - w) * 255 + w * 255"
    unfolding x_def by (rule add_mono)
  also have "\<dots> = 255" by (simp add: algebra_simps)
  finally have hi: "x \<le> 255" .
  have "0 \<le> \<lfloor>x + 1 / 2\<rfloor>" and "\<lfloor>x + 1 / 2\<rfloor> \<le> 255"
    using lo hi by (simp_all add: floor_le_iff le_floor_iff)
  then have "uint (word_of_int \<lfloor>x + 1 / 2\<rfloor> :: uint8) = \<lfloor>x + 1 / 2\<rfloor>"
    by (simp add: uint_word_of_int)
  then show ?thesis
    by (simp add: lerp_byte_def x_def)
qed

lemma resize_position_fy:
  assumes "fy = (real j + 1 / 2) * (real n / 256) - 1 / 2"
  shows "resize_position n j =
           (if \<lfloor>fy\<rfloor> < 0 then (0, 0)
            else if int n - 1 \<le> \<lfloor>fy\<rfloor> then (n - 1, 0)
            else (nat \<lfloor>fy\<rfloor>, fy - real_of_int \<lfloor>fy\<rfloor>))"
  unfolding resize_position_def Let_def assms ..

lemma resize_position_cases:
  assumes "fy = (real j + 1 / 2) * (real n / 256) - 1 / 2"
  shows "fy < 0 \<Longrightarrow> resize_position n j = (0, 0)"
    and "\<not> fy < 0 \<Longrightarrow> real n - 1 \<le> fy \<Longrightarrow> resize_position n j = (n - 1, 0)"
    and "\<not> fy < 0 \<Longrightarrow> \<not> real n - 1 \<le> fy \<Longrightarrow>
           resize_position n j = (nat \<lfloor>fy\<rfloor>, frac fy) \<and> nat \<lfloor>fy\<rfloor> + 1 \<le> n - 1"
proof -
  note p = resize_position_fy [OF assms]
  show "fy < 0 \<Longrightarrow> resize_position n j = (0, 0)"
    unfolding p by (simp add: floor_less_iff)
  show "\<not> fy < 0 \<Longrightarrow> real n - 1 \<le> fy \<Longrightarrow> resize_position n j = (n - 1, 0)"
    unfolding p by (simp add: floor_less_iff le_floor_iff)
  show "resize_position n j = (nat \<lfloor>fy\<rfloor>, frac fy) \<and> nat \<lfloor>fy\<rfloor> + 1 \<le> n - 1"
    if a: "\<not> fy < 0" and b: "\<not> real n - 1 \<le> fy"
  proof -
    have f0: "\<not> \<lfloor>fy\<rfloor> < 0" using a by (simp add: floor_less_iff)
    have f1: "\<not> int n - 1 \<le> \<lfloor>fy\<rfloor>" using b by (simp add: le_floor_iff)
    have "nat \<lfloor>fy\<rfloor> + 1 \<le> n - 1" using f0 f1 by linarith
    then show ?thesis
      unfolding p using f0 f1 by (simp add: frac_def)
  qed
qed

lemma lut_entry_image:
  assumes "\<And>r. r \<in> set rows \<Longrightarrow> length r = 3" and "i < length rows"
  shows "lut_entry \<lparr>nd_shape = sh, nd_dtype = UInt8, nd_contiguous = True,
                    nd_flat = concat rows\<rparr> i = rows ! i"
  using lut_entry_rows [OF assms] by (simp add: lut_entry_def)

lemma resize_linear_rows:
  assumes "\<And>r. r \<in> set rows \<Longrightarrow> length r = 3" and "length rows = n" and "n \<noteq> 0"
  shows "resize_linear \<lparr>nd_shape = [n, 1, 3], nd_dtype = UInt8, nd_contiguous = True,
                        nd_flat = concat rows\<rparr> =
           Inr \<lparr>nd_shape = [256, 1, 3], nd_dtype = UInt8, nd_contiguous = True,
                nd_flat = concat (map (resize_entry \<lparr>nd_shape = [n, 1, 3], nd_dtype = UInt8,
                                                     nd_contiguous = True,
                                                     nd_flat = concat rows\<rparr> n) [0..<256])\<rparr>"
proof -
  have "length (concat rows) = 3 * length rows"
    using assms(1) by (rule length_concat_rows)
  then show ?thesis
    using assms(2,3) by (simp add: resize_linear_def)
qed

lemma resize_entry_rows:
  assumes "\<And>r. r \<in> set rows \<Longrightarrow> length r = 3" and "length rows = n" and "n \<noteq> 0"
    and "resize_position n j = (sy, w)" and "sy \<le> n - 1"
  shows "resize_entry \<lparr>nd_shape = sh, nd_dtype = UInt8, nd_contiguous = True,
                       nd_flat = concat rows\<rparr> n j =
           map2 (lerp_byte w) (rows ! sy) (rows ! min (sy + 1) (n - 1))"
proof -
  have "sy < length rows" and "min (sy + 1) (n - 1) < length rows"
    using assms(2,3,5) by simp_all
  then show ?thesis
    using assms(1) by (simp add: resize_entry_def assms(4) lut_entry_image)
qed

lemma floor_int_half: "\<lfloor>real_of_int k + 1 / 2\<rfloor> = k"
  by (simp add: floor_eq_iff)

lemma byte_rows_nth:
  assumes "\<forall>c \<in> set ints. \<forall>k \<in> set c. 0 \<le> k \<and> k \<le> 255"
    and "list_all (\<lambda>c. length c = 3) ints" and "i < length ints" and "c < 3"
  shows "map (map word_of_int) ints ! i ! c = (word_of_int (ints ! i ! c) :: uint8)"
    and "float_of (map (map word_of_int) ints ! i ! c) = real_of_int (ints ! i ! c)"
    and "uint (map (map word_of_int) ints ! i ! c :: uint8) = ints ! i ! c"
proof -
  have l: "length (ints ! i) = 3"
    using assms(2,3) by (simp add: list_all_length)
  have m: "ints ! i \<in> set ints" using assms(3) by simp
  have "ints ! i ! c \<in> set (ints ! i)" using l assms(4) by simp
  then have r: "0 \<le> ints ! i ! c" "ints ! i ! c \<le> 255"
    using assms(1) m by blast+
  show e: "map (map word_of_int) ints ! i ! c = (word_of_int (ints ! i ! c) :: uint8)"
    using assms(3,4) l by simp
  show "float_of (map (map word_of_int) ints ! i ! c) = real_of_int (ints ! i ! c)"
    unfolding e using r by (rule float_of_word_of_int)
  show "uint (map (map word_of_int) ints ! i ! c :: uint8) = ints ! i ! c"
    unfolding e using r by (simp add: uint_word_of_int)
qed

lemma resized_component:
  assumes rng: "\<forall>c \<in> set ints. \<forall>k \<in> set c. 0 \<le> k \<and> k \<le> 255"
    and l3: "list_all (\<lambda>c. length c = 3) ints"
    and n: "length ints = n" "n \<noteq> 0" and c: "c < 3"
    and fy: "fy = (real j + 1 / 2) * (real n / 256) - 1 / 2"
  shows "uint (resize_entry \<lparr>nd_shape = sh, nd_dtype = UInt8, nd_contiguous = True,
                             nd_flat = concat (map (map word_of_int) ints)\<rparr> n j ! c) =
           (if fy < 0 then ints ! 0 ! c
            else if real n - 1 \<le> fy then ints ! (n - 1) ! c
            else \<lfloor>(1 - frac fy) * real_of_int (ints ! nat \<lfloor>fy\<rfloor> ! c)
                   + frac fy * real_of_int (ints ! (nat \<lfloor>fy\<rfloor> + 1) ! c) + 1 / 2\<rfloor>)"
proof -
  define rows :: "uint8 list list" where "rows = map (map word_of_int) ints"
  have r3: "\<And>r. r \<in> set rows \<Longrightarrow> length r = 3"
    using l3 by (auto simp: rows_def list_all_iff)
  have rl: "length rows = n" by (simp add: rows_def n(1))
  have entry: "uint (resize_entry \<lparr>nd_shape = sh, nd_dtype = UInt8, nd_contiguous = True,
                             nd_flat = concat rows\<rparr> n j ! c) =
       \<lfloor>(1 - w) * real_of_int (ints ! sy ! c)
          + w * real_of_int (ints ! min (sy + 1) (n - 1) ! c) + 1 / 2\<rfloor>"
    if p: "resize_position n j = (sy, w)" and s: "sy \<le> n - 1" and w: "0 \<le> w" "w \<le> 1"
    for sy w
  proof -
    have i1: "sy < length ints" and i2: "min (sy + 1) (n - 1) < length ints"
      using s n by simp_all
    have "rows ! sy \<in> set rows" and "rows ! min (sy + 1) (n - 1) \<in> set rows"
      using i1 i2 rl n(1) by simp_all
    then have l1: "length (rows ! sy) = 3" and l2: "length (rows ! min (sy + 1) (n - 1)) = 3"
      using r3 by blast+
    have e: "resize_entry \<lparr>nd_shape = sh, nd_dtype = UInt8, nd_contiguous = True,
                             nd_flat = concat rows\<rparr> n j
          = map2 (lerp_byte w) (rows ! sy) (rows ! min (sy + 1) (n - 1))"
      using r3 rl n(2) p s by (rule resize_entry_rows)
    have nc: "resize_entry \<lparr>nd_shape = sh, nd_dtype = UInt8, nd_contiguous = True,
                             nd_flat = concat rows\<rparr> n j ! c
          = lerp_byte w (rows ! sy ! c) (rows ! min (sy + 1) (n - 1) ! c)"
      unfolding e using l1 l2 c by simp
    have f1: "float_of (rows ! sy ! c) = real_of_int (ints ! sy ! c)"
      unfolding rows_def using rng l3 i1 c by (rule byte_rows_nth(2))
    have f2: "float_of (rows ! min (sy + 1) (n - 1) ! c)
              = real_of_int (ints ! min (sy + 1) (n - 1) ! c)"
      unfolding rows_def using rng l3 i2 c by (rule byte_rows_nth(2))
    show ?thesis
      unfolding nc uint_lerp_byte [OF w] f1 f2 ..
  qed
  note cases = resize_position_cases [OF fy]
  consider (below) "fy < 0" | (above) "\<not> fy < 0" "real n - 1 \<le> fy"
    | (between) "\<not> fy < 0" "\<not> real n - 1 \<le> fy"
    by blast
  then show ?thesis
  proof cases
    case below
    have "resize_position n j = (0, 0)" using below by (rule cases(1))
    then show ?thesis
      using entry [of 0 0] below unfolding rows_def by (simp add: floor_int_half)
  next
    case above
    have "resize_position n j = (n - 1, 0)" using above by (rule cases(2))
    then show ?thesis
      using entry [of "n - 1" 0] above unfolding rows_def by (simp add: floor_int_half)
  next
    case between
    have p: "resize_position n j = (nat \<lfloor>fy\<rfloor>, frac fy)" and s: "nat \<lfloor>fy\<rfloor> + 1 \<le> n - 1"
      using cases(3) [OF between] by simp_all
    have w: "0 \<le> frac fy" "frac fy \<le> 1"
      using frac_lt_1 [of fy] by (simp_all add: less_imp_le)
    have m: "min (nat \<lfloor>fy\<rfloor> + 1) (n - 1) = nat \<lfloor>fy\<rfloor> + 1"
      using s by simp
    have "nat \<lfloor>fy\<rfloor> \<le> n - 1" using s by simp
    then show ?thesis
      using entry [OF p _ w] between unfolding rows_def m by simp
  qed
qed

lemma resize_position_bound:
  assumes "0 < n"
  shows "fst (resize_position n j) \<le> n - 1"
  using assms by (auto simp: resize_position_def Let_def)

lemma length_lut_entry_in:
  assumes "length (nd_flat a) = 3 * n" and "i < n"
  shows "length (lut_entry a i) = 3"
  using assms by (simp add: lut_entry_def)

lemma length_resize_entry:
  assumes "length (nd_flat a) = 3 * n" and "0 < n"
  shows "length (resize_entry a n j) = 3"
proof -
  obtain sy w where p: "resize_position n j = (sy, w)"
    by (cases "resize_position n j")
  have "sy \<le> n - 1"
    using resize_position_bound [OF assms(2), of j] p by simp
  then have "sy < n" and "min (sy + 1) (n - 1) < n"
    using assms(2) by simp_all
  then have "length (lut_entry a sy) = 3" and "length (lut_entry a (min (sy + 1) (n - 1))) = 3"
    using assms(1) by (simp_all add: length_lut_entry_in)
  then show ?thesis
    by (simp add: resize_entry_def p)
qed

lemma uint_byte_row:
  assumes "\<forall>k \<in> set c. 0 \<le> k \<and> k \<le> 255"
  shows "map uint (map word_of_int c :: uint8 list) = c"
proof -
  have "uint (word_of_int k :: uint8) = k" if "k \<in> set c" for k
  proof -
    have "0 \<le> k" and "k \<le> 255" using assms that by blast+
    then show ?thesis by (simp add: uint_word_of_int)
  qed
  then show ?thesis
    by (simp add: map_idI)
qed

text \<open>A table of bytes: what the loader does with it, in terms of its values.\<close>

lemma load_byte_table_256:
  assumes rng: "\<forall>c \<in> set ints. \<forall>k \<in> set c. 0 \<le> k \<and> k \<le> 255"
    and l3: "list_all (\<lambda>c. length c = 3) ints" and n: "length ints = 256"
  shows "\<exists>t. colormaps (load_lut_file np_cast rs
                           (lut_name, PyList (map PyTuple (map (map PyInt) ints))) s)
               = colormaps s @ [(lut_name, Custom t)]
           \<and> nd_shape t = [256, 1, 3] \<and> nd_dtype t = UInt8
           \<and> (\<forall>i < 256. map uint (lut_entry t i) = ints ! i)"
proof -
  define rows :: "uint8 list list" where "rows = map (map word_of_int) ints"
  define t where "t = \<lparr>nd_shape = [256, 1, 3], nd_dtype = UInt8, nd_contiguous = True,
                        nd_flat = concat rows\<rparr>"
  have pl: "list_all (\<lambda>c. length c = 3) (map (map PyInt) ints)"
    using l3 by (simp add: list_all_iff)
  have a: "np_array_uint8 np_cast (map (map PyInt) ints) = Inr rows"
    unfolding rows_def using rng by (rule np_array_uint8_bytes)
  have c: "colormaps (load_lut_file np_cast rs
                        (lut_name, PyList (map PyTuple (map (map PyInt) ints))) s)
             = colormaps s @ [(lut_name, Custom t)]"
    unfolding load_lut_file_parsed [OF pl] t_def
    using load_lut_values_256 [OF a pl, of rs lut_name s] n by simp
  have r3: "\<And>r. r \<in> set rows \<Longrightarrow> length r = 3"
    using l3 by (auto simp: rows_def list_all_iff)
  have e: "map uint (lut_entry t i) = ints ! i" if i: "i < 256" for i
  proof -
    have il: "i < length rows" using i n by (simp add: rows_def)
    have "lut_entry t i = rows ! i"
      unfolding t_def using r3 il by (rule lut_entry_image)
    moreover have "rows ! i = map word_of_int (ints ! i)"
      using il by (simp add: rows_def)
    moreover have "ints ! i \<in> set ints"
      using il by (simp add: rows_def)
    then have "\<forall>k \<in> set (ints ! i). 0 \<le> k \<and> k \<le> 255"
      using rng by blast
    ultimately show ?thesis
      by (simp only: uint_byte_row)
  qed
  have "nd_shape t = [256, 1, 3]" "nd_dtype t = UInt8"
    by (simp_all add: t_def)
  with c e show ?thesis by blast
qed

lemma load_byte_table_resized:
  assumes rng: "\<forall>c \<in> set ints. \<forall>k \<in> set c. 0 \<le> k \<and> k \<le> 255"
    and l3: "list_all (\<lambda>c. length c = 3) ints"
    and n: "length ints \<noteq> 0" "length ints \<noteq> 256"
  shows "\<exists>t. colormaps (load_lut_file np_cast resize_linear
                           (lut_name, PyList (map PyTuple (map (map PyInt) ints))) s)
               = colormaps s @ [(lut_name, Custom t)]
           \<and> nd_shape t = [256, 1, 3] \<and> nd_dtype t = UInt8 \<and> nd_contiguous t
           \<and> length (nd_flat t) = 768
           \<and> (\<forall>j < 256. \<forall>c < 3.
                 uint (lut_entry t j ! c) =
                   (let fy = (real j + 1 / 2) * (real (length ints) / 256) - 1 / 2
                    in if fy < 0 then ints ! 0 ! c
                       else if real (length ints) - 1 \<le> fy then ints ! (length ints - 1) ! c
                       else \<lfloor>(1 - frac fy) * real_of_int (ints ! nat \<lfloor>fy\<rfloor> ! c)
                              + frac fy * real_of_int (ints ! (nat \<lfloor>fy\<rfloor> + 1) ! c)
                              + 1 / 2\<rfloor>))"
proof -
  define rows :: "uint8 list list" where "rows = map (map word_of_int) ints"
  define img where "img = \<lparr>nd_shape = [length ints, 1, 3], nd_dtype = UInt8,
                            nd_contiguous = True, nd_flat = concat rows\<rparr>"
  define out where "out = map (resize_entry img (length ints)) [0..<256]"
  define t where "t = \<lparr>nd_shape = [256, 1, 3], nd_dtype = UInt8, nd_contiguous = True,
                        nd_flat = concat out\<rparr>"
  have pl: "list_all (\<lambda>c. length c = 3) (map (map PyInt) ints)"
    using l3 by (simp add: list_all_iff)
  have pn: "length (map (map PyInt) ints) \<noteq> 0" "length (map (map PyInt) ints) \<noteq> 256"
    using n by simp_all
  have a: "np_array_uint8 np_cast (map (map PyInt) ints) = Inr rows"
    unfolding rows_def using rng by (rule np_array_uint8_bytes)
  have r3: "\<And>r. r \<in> set rows \<Longrightarrow> length r = 3"
    using l3 by (auto simp: rows_def list_all_iff)
  have rl: "length rows = length ints" by (simp add: rows_def)
  have rs: "resize_linear img = Inr t"
    unfolding img_def t_def out_def using r3 rl n(1) by (rule resize_linear_rows)
  have fl: "length (nd_flat img) = 3 * length ints"
    using length_concat_rows [of rows 3] r3 rl by (simp add: img_def)
  have o3: "\<And>r. r \<in> set out \<Longrightarrow> length r = 3"
    using length_resize_entry [OF fl] n(1) by (auto simp: out_def)
  have "length (concat out) = 3 * length out"
    using o3 by (rule length_concat_rows)
  then have l: "length (nd_flat t) = 768"
    by (simp add: t_def out_def)
  have tt: "t\<lparr>nd_shape := [256, 1, 3], nd_contiguous := True\<rparr> = t"
    by (simp add: t_def)
  have "load_lut_values np_cast resize_linear lut_name (map (map PyInt) ints) s =
          logging INFO ''Successfully loaded and processed custom LUT''
            ((logging INFO ''LUT needs resizing to 256 entries.'' s)
               \<lparr>colormaps := colormaps s @ [(lut_name, Custom t)]\<rparr>)"
    unfolding load_lut_values_resized [OF a pl pn] length_map img_def [symmetric] rs
    using l by (simp add: tt del: One_nat_def)
  then have c: "colormaps (load_lut_file np_cast resize_linear
                           (lut_name, PyList (map PyTuple (map (map PyInt) ints))) s)
               = colormaps s @ [(lut_name, Custom t)]"
    unfolding load_lut_file_parsed [OF pl] by simp
  have e: "uint (lut_entry t j ! c) =
             (let fy = (real j + 1 / 2) * (real (length ints) / 256) - 1 / 2
              in if fy < 0 then ints ! 0 ! c
                 else if real (length ints) - 1 \<le> fy then ints ! (length ints - 1) ! c
                 else \<lfloor>(1 - frac fy) * real_of_int (ints ! nat \<lfloor>fy\<rfloor> ! c)
                        + frac fy * real_of_int (ints ! (nat \<lfloor>fy\<rfloor> + 1) ! c) + 1 / 2\<rfloor>)"
    if j: "j < 256" and c: "c < 3" for j c
  proof -
    have jl: "j < length out" using j by (simp add: out_def)
    have "lut_entry t j = out ! j"
      unfolding t_def using o3 jl by (rule lut_entry_image)
    also have "\<dots> = resize_entry img (length ints) j"
      using j by (simp add: out_def)
    finally have le: "lut_entry t j = resize_entry img (length ints) j" .
    show ?thesis
      unfolding le img_def rows_def Let_def
      using rng l3 refl n(1) c refl by (rule resized_component)
  qed
  have "nd_shape t = [256, 1, 3]" "nd_dtype t = UInt8" "nd_contiguous t"
    by (simp_all add: t_def)
  with c l e show ?thesis by blast
qed

lemma collect_replicate: "collect (replicate n (Inr a)) = Inr (replicate n a)"
  by (induction n) simp_all

text \<open>
  Claim C3. Take a file whose text parses to a list of \<open>n\<close> tuples of three components,
  any behaviour \<open>np_cast\<close> of NumPy on components that are not bytes, and any behaviour \<open>rs\<close>
  of the resize primitive.
  \<^item> If \<open>n = 0\<close>, or if the conversion to bytes raises an exception, nothing is added to the
    catalog.
  \<^item> If the conversion gives the rows \<open>rows\<close>, these are the components converted one by
    one: an integer in \<open>0..255\<close> as it is, a float strictly between \<open>-1\<close> and \<open>256\<close> cut
    to its integral part, anything else as \<open>np_cast\<close> has it. For \<open>n = 256\<close> the catalog
    gains one table, of shape \<open>256 \<times> 1 \<times> 3\<close>, with exactly these bytes. For any other \<open>n\<close> the \<open>n \<times> 1 \<times> 3\<close> image of these bytes is handed to the
    resize primitive, and its result is added, as a contiguous \<open>256 \<times> 1 \<times> 3\<close> table, only
    if it has 768 bytes, that is 256 entries; otherwise, or if the primitive fails, nothing
    is added.
  \<^item> For a table \<open>ints\<close> of integers in \<open>0..255\<close>: if \<open>n = 256\<close>, entry \<open>i\<close> of the table added
    is entry \<open>i\<close> of the file, for every \<open>i\<close>. For any other \<open>n > 0\<close>, with linear
    interpolation as the resize primitive, the table added has 256 entries, and component
    \<open>c\<close> of its entry \<open>j\<close> is, for the position \<open>fy = (j + 1/2) * n / 256 - 1/2\<close> of that
    entry in the file: the first entry's component if \<open>fy < 0\<close>, the last entry's if
    \<open>fy \<ge> n - 1\<close>, and otherwise the integer nearest to the value, at \<open>fy\<close>, of the line
    through the components of the file's entries \<open>\<lfloor>fy\<rfloor>\<close> and \<open>\<lfloor>fy\<rfloor> + 1\<close>.
\<close>

theorem load_external_table:
  assumes "list_all (\<lambda>c. length c = 3) lut_values"
  shows "(length lut_values = 0 \<longrightarrow>
            colormaps (load_lut_file np_cast rs (lut_name, PyList (map PyTuple lut_values)) s)
              = colormaps s)
     \<and> (\<forall>e. np_array_uint8 np_cast lut_values = Inl e \<longrightarrow>
            colormaps (load_lut_file np_cast rs (lut_name, PyList (map PyTuple lut_values)) s)
              = colormaps s)
     \<and> (\<forall>rows. np_array_uint8 np_cast lut_values = Inr rows \<longrightarrow>
            length rows = length lut_values
          \<and> (\<forall>i < length lut_values. length (rows ! i) = 3
                \<and> (\<forall>c < 3.
                      case lut_values ! i ! c of
                        PyInt k \<Rightarrow>
                          if 0 \<le> k \<and> k \<le> 255 then uint (rows ! i ! c) = k
                          else np_cast (lut_values ! i ! c) = Inr (rows ! i ! c)
                      | PyFloat x \<Rightarrow>
                          if - 1 < x \<and> x < 256
                          then uint (rows ! i ! c) = (if 0 \<le> x then \<lfloor>x\<rfloor> else \<lceil>x\<rceil>)
                          else np_cast (lut_values ! i ! c) = Inr (rows ! i ! c)
                      | PyObject r \<Rightarrow>
                          np_cast (lut_values ! i ! c) = Inr (rows ! i ! c)))
          \<and> (length lut_values = 256 \<longrightarrow>
                colormaps (load_lut_file np_cast rs
                             (lut_name, PyList (map PyTuple lut_values)) s)
                  = colormaps s @
                      [(lut_name, Custom \<lparr>nd_shape = [256, 1, 3], nd_dtype = UInt8,
                                          nd_contiguous = True, nd_flat = concat rows\<rparr>)])
          \<and> (length lut_values \<noteq> 0 \<and> length lut_values \<noteq> 256 \<longrightarrow>
                colormaps (load_lut_file np_cast rs
                             (lut_name, PyList (map PyTuple lut_values)) s)
                  = (case rs \<lparr>nd_shape = [length lut_values, 1, 3], nd_dtype = UInt8,
                               nd_contiguous = True, nd_flat = concat rows\<rparr> of
                       Inl e \<Rightarrow> colormaps s
                     | Inr lut_resized \<Rightarrow>
                         if length (nd_flat lut_resized) = 768
                         then colormaps s @
                                [(lut_name, Custom (lut_resized\<lparr>nd_shape := [256, 1, 3],
                                                      nd_contiguous := True\<rparr>))]
                         else colormaps s)))
     \<and> (lut_values = map (map PyInt) ints
          \<and> (\<forall>c \<in> set ints. \<forall>k \<in> set c. 0 \<le> k \<and> k \<le> 255) \<longrightarrow>
          (length ints = 256 \<longrightarrow>
             (\<exists>t. colormaps (load_lut_file np_cast rs
                                (lut_name, PyList (map PyTuple lut_values)) s)
                    = colormaps s @ [(lut_name, Custom t)]
                \<and> nd_shape t = [256, 1, 3] \<and> nd_dtype t = UInt8
                \<and> (\<forall>i < 256. map uint (lut_entry t i) = ints ! i)))
        \<and> (length ints \<noteq> 0 \<and> length ints \<noteq> 256 \<longrightarrow>
             (\<exists>t. colormaps (load_lut_file np_cast resize_linear
                                (lut_name, PyList (map PyTuple lut_values)) s)
                    = colormaps s @ [(lut_name, Custom t)]
                \<and> nd_shape t = [256, 1, 3] \<and> nd_dtype t = UInt8 \<and> nd_contiguous t
                \<and> length (nd_flat t) = 768
                \<and> (\<forall>j < 256. \<forall>c < 3.
                      uint (lut_entry t j ! c) =
                        (let fy = (real j + 1 / 2) * (real (length ints) / 256) - 1 / 2
                         in if fy < 0 then ints ! 0 ! c
                            else if real (length ints) - 1 \<le> fy
                            then ints ! (length ints - 1) ! c
                            else \<lfloor>(1 - frac fy) * real_of_int (ints ! nat \<lfloor>fy\<rfloor> ! c)
                                   + frac fy * real_of_int (ints ! (nat \<lfloor>fy\<rfloor> + 1) ! c)
                                   + 1 / 2\<rfloor>)))))"
proof (intro conjI allI impI)
  note p = load_lut_file_parsed [OF assms]
  show "colormaps (load_lut_file np_cast rs (lut_name, PyList (map PyTuple lut_values)) s)
          = colormaps s"
    if "length lut_values = 0"
    unfolding p using that by (simp add: load_lut_values_empty)
  show "colormaps (load_lut_file np_cast rs (lut_name, PyList (map PyTuple lut_values)) s)
          = colormaps s"
    if "np_array_uint8 np_cast lut_values = Inl e" for e
    unfolding p load_lut_values_error [OF that] by simp
  show "length rows = length lut_values"
    if "np_array_uint8 np_cast lut_values = Inr rows" for rows
    using that assms by (rule np_array_uint8_Inr(1))
  show "length (rows ! i) = 3"
    if "np_array_uint8 np_cast lut_values = Inr rows" and "i < length lut_values" for rows i
    using that(1) assms that(2) by (rule np_array_uint8_Inr(2))
  show "case lut_values ! i ! c of
          PyInt k \<Rightarrow>
            if 0 \<le> k \<and> k \<le> 255 then uint (rows ! i ! c) = k
            else np_cast (lut_values ! i ! c) = Inr (rows ! i ! c)
        | PyFloat x \<Rightarrow>
            if - 1 < x \<and> x < 256
            then uint (rows ! i ! c) = (if 0 \<le> x then \<lfloor>x\<rfloor> else \<lceil>x\<rceil>)
            else np_cast (lut_values ! i ! c) = Inr (rows ! i ! c)
        | PyObject r \<Rightarrow> np_cast (lut_values ! i ! c) = Inr (rows ! i ! c)"
    if "np_array_uint8 np_cast lut_values = Inr rows" and "i < length lut_values" and "c < 3"
    for rows i c
  proof -
    have "to_uint8 np_cast (lut_values ! i ! c) = Inr (rows ! i ! c)"
      using that(1) assms that(2,3) by (rule np_array_uint8_Inr(3))
    then show ?thesis by (rule to_uint8_Inr)
  qed
  show "colormaps (load_lut_file np_cast rs (lut_name, PyList (map PyTuple lut_values)) s)
          = colormaps s @
              [(lut_name, Custom \<lparr>nd_shape = [256, 1, 3], nd_dtype = UInt8,
                                  nd_contiguous = True, nd_flat = concat rows\<rparr>)]"
    if "np_array_uint8 np_cast lut_values = Inr rows" and "length lut_values = 256" for rows
    unfolding p load_lut_values_256 [OF that(1) assms that(2)] by simp
  show "colormaps (load_lut_file np_cast rs (lut_name, PyList (map PyTuple lut_values)) s)
          = (case rs \<lparr>nd_shape = [length lut_values, 1, 3], nd_dtype = UInt8,
                       nd_contiguous = True, nd_flat = concat rows\<rparr> of
               Inl e \<Rightarrow> colormaps s
             | Inr lut_resized \<Rightarrow>
                 if length (nd_flat lut_resized) = 768
                 then colormaps s @
                        [(lut_name, Custom (lut_resized\<lparr>nd_shape := [256, 1, 3],
                                              nd_contiguous := True\<rparr>))]
                 else colormaps s)"
    if a: "np_array_uint8 np_cast lut_values = Inr rows"
      and n: "length lut_values \<noteq> 0 \<and> length lut_values \<noteq> 256" for rows
  proof -
    have n0: "length lut_values \<noteq> 0" and n256: "length lut_values \<noteq> 256"
      using n by simp_all
    show ?thesis
      unfolding p load_lut_values_resized [OF a assms n0 n256]
      by (simp split: sum.splits)
  qed
  show "\<exists>t. colormaps (load_lut_file np_cast rs
                          (lut_name, PyList (map PyTuple lut_values)) s)
              = colormaps s @ [(lut_name, Custom t)]
          \<and> nd_shape t = [256, 1, 3] \<and> nd_dtype t = UInt8
          \<and> (\<forall>i < 256. map uint (lut_entry t i) = ints ! i)"
    if b: "lut_values = map (map PyInt) ints
          \<and> (\<forall>c \<in> set ints. \<forall>k \<in> set c. 0 \<le> k \<and> k \<le> 255)"
      and n: "length ints = 256"
  proof -
    have l3: "list_all (\<lambda>c. length c = 3) ints"
      using assms b by (simp add: list_all_iff)
    have rng: "\<forall>c \<in> set ints. \<forall>k \<in> set c. 0 \<le> k \<and> k \<le> 255"
      using b by simp
    show ?thesis
      using load_byte_table_256 [OF rng l3 n] b by simp
  qed
  show "\<exists>t. colormaps (load_lut_file np_cast resize_linear
                          (lut_name, PyList (map PyTuple lut_values)) s)
              = colormaps s @ [(lut_name, Custom t)]
          \<and> nd_shape t = [256, 1, 3] \<and> nd_dtype t = UInt8 \<and> nd_contiguous t
          \<and> length (nd_flat t) = 768
          \<and> (\<forall>j < 256. \<forall>c < 3.
                uint (lut_entry t j ! c) =
                  (let fy = (real j + 1 / 2) * (real (length ints) / 256) - 1 / 2
                   in if fy < 0 then ints ! 0 ! c
                      else if real (length ints) - 1 \<le> fy
                      then ints ! (length ints - 1) ! c
                      else \<lfloor>(1 - frac fy) * real_of_int (ints ! nat \<lfloor>fy\<rfloor> ! c)
                             + frac fy * real_of_int (ints ! (nat \<lfloor>fy\<rfloor> + 1) ! c)
                             + 1 / 2\<rfloor>))"
    if b: "lut_values = map (map PyInt) ints
          \<and> (\<forall>c \<in> set ints. \<forall>k \<in> set c. 0 \<le> k \<and> k \<le> 255)"
      and n: "length ints \<noteq> 0 \<and> length ints \<noteq> 256"
  proof -
    have l3: "list_all (\<lambda>c. length c = 3) ints"
      using assms b by (simp add: list_all_iff)
    have rng: "\<forall>c \<in> set ints. \<forall>k \<in> set c. 0 \<le> k \<and> k \<le> 255"
      using b by simp
    have n0: "length ints \<noteq> 0" and n256: "length ints \<noteq> 256"
      using n by simp_all
    have lv: "lut_values = map (map PyInt) ints" using b by simp
    show ?thesis
      unfolding lv by (rule load_byte_table_resized [OF rng l3 n0 n256])
  qed
qed

theorem load_external_table_witness:
  "colormaps (load_lut_file (\<lambda>v. Inl OverflowError) resize_linear
                (''EMPTY'', PyList (map PyTuple [])) (blank_viewer 0))
     = builtin_colormaps
   \<and> colormaps (load_lut_file (\<lambda>v. Inl OverflowError) resize_linear
                  (''BIG'', PyList (map PyTuple
                     ([PyInt (2 ^ 64), PyInt 0, PyInt 0]
                      # replicate 255 [PyInt 0, PyInt 0, PyInt 0])))
                  (blank_viewer 0))
       = builtin_colormaps
   \<and> colormaps (load_lut_file (\<lambda>v. Inl OverflowError) resize_linear
                  (''FLOATS'', PyList (map PyTuple
                     (replicate 256 [PyFloat (3 / 2), PyInt 2, PyInt 3])))
                  (blank_viewer 0))
       = builtin_colormaps @
           [(''FLOATS'', Custom \<lparr>nd_shape = [256, 1, 3], nd_dtype = UInt8,
                                  nd_contiguous = True,
                                  nd_flat = concat (replicate 256 [1, 2, 3])\<rparr>)]
   \<and> (\<exists>t. colormaps (load_lut_file (\<lambda>v. Inl OverflowError) resize_linear
                        (''RAMP'', PyList (map PyTuple (map (map PyInt)
                           (map (\<lambda>i. [int i, 255 - int i, 7]) [0..<256]))))
                        (blank_viewer 0))
            = builtin_colormaps @ [(''RAMP'', Custom t)]
          \<and> nd_shape t = [256, 1, 3]
          \<and> map uint (lut_entry t 0) = [0, 255, 7]
          \<and> map uint (lut_entry t 5) = [5, 250, 7]
          \<and> map uint (lut_entry t 255) = [255, 0, 7])
   \<and> (\<exists>t. colormaps (load_lut_file (\<lambda>v. Inl OverflowError) resize_linear
                        (''TWO'', PyList (map PyTuple (map (map PyInt)
                           [[0, 10, 20], [200, 110, 120]])))
                        (blank_viewer 0))
            = builtin_colormaps @ [(''TWO'', Custom t)]
          \<and> nd_shape t = [256, 1, 3] \<and> length (nd_flat t) = 768
          \<and> uint (lut_entry t 0 ! 0) = 0 \<and> uint (lut_entry t 0 ! 1) = 10
          \<and> uint (lut_entry t 0 ! 2) = 20
          \<and> uint (lut_entry t 128 ! 0) = 101 \<and> uint (lut_entry t 128 ! 1) = 60
          \<and> uint (lut_entry t 128 ! 2) = 70
          \<and> uint (lut_entry t 255 ! 0) = 200 \<and> uint (lut_entry t 255 ! 1) = 110
          \<and> uint (lut_entry t 255 ! 2) = 120)"
proof -
  let ?np = "\<lambda>v :: pyval. (Inl OverflowError :: error + uint8)"
  have cm: "colormaps (blank_viewer 0) = builtin_colormaps"
    by (simp add: blank_viewer_def)
  have e: "list_all (\<lambda>c. length c = 3) ([] :: pyval list list)"
    "length ([] :: pyval list list) = 0"
    by simp_all
  note the = load_external_table [OF e(1), of ?np resize_linear "''EMPTY''" "blank_viewer 0"]
  have 1: "colormaps (load_lut_file ?np resize_linear (''EMPTY'', PyList (map PyTuple []))
             (blank_viewer 0)) = builtin_colormaps"
    using the [THEN conjunct1, THEN mp, OF e(2)] unfolding cm .
  let ?big = "[PyInt (2 ^ 64), PyInt 0, PyInt 0] # replicate 255 [PyInt 0, PyInt 0, PyInt 0]"
  have b: "list_all (\<lambda>c. length c = 3) ?big"
    "np_array_uint8 ?np ?big = Inl OverflowError"
    by (simp_all add: list_all_iff np_array_uint8_def to_uint8_def)
  note thb = load_external_table [OF b(1), of ?np resize_linear "''BIG''" "blank_viewer 0"]
  have 2: "colormaps (load_lut_file ?np resize_linear (''BIG'', PyList (map PyTuple ?big))
             (blank_viewer 0)) = builtin_colormaps"
    using thb [THEN conjunct2, THEN conjunct1, THEN spec, THEN mp, OF b(2)] unfolding cm .
  let ?fl = "replicate 256 [PyFloat (3 / 2), PyInt 2, PyInt 3]"
  have "collect (map (to_uint8 ?np) [PyFloat (3 / 2), PyInt 2, PyInt 3]) = Inr [1, 2, 3]"
    by (simp add: to_uint8_def astype_uint8_def)
  then have fa: "np_array_uint8 ?np ?fl = Inr (replicate 256 [1, 2, 3])"
    by (simp add: np_array_uint8_def collect_replicate)
  have f: "list_all (\<lambda>c. length c = 3) ?fl" "length ?fl = 256"
    by (simp_all add: list_all_iff)
  note thf = load_external_table [OF f(1), of ?np resize_linear "''FLOATS''" "blank_viewer 0"]
  have 3: "colormaps (load_lut_file ?np resize_linear (''FLOATS'', PyList (map PyTuple ?fl))
             (blank_viewer 0))
       = builtin_colormaps @
           [(''FLOATS'', Custom \<lparr>nd_shape = [256, 1, 3], nd_dtype = UInt8,
                                  nd_contiguous = True,
                                  nd_flat = concat (replicate 256 [1, 2, 3])\<rparr>)]"
    using thf [THEN conjunct2, THEN conjunct2, THEN conjunct1, THEN spec, THEN mp, OF fa,
        THEN conjunct2, THEN conjunct2, THEN conjunct1, THEN mp, OF f(2)]
    unfolding cm .
  let ?ramp = "map (\<lambda>i. [int i, 255 - int i, 7]) [0..<256]"
  have r1: "list_all (\<lambda>c. length c = 3) (map (map PyInt) ?ramp)"
    by (simp add: list_all_iff)
  have "\<forall>c \<in> set ?ramp. \<forall>k \<in> set c. 0 \<le> k \<and> k \<le> 255"
    by auto
  then have r2: "map (map PyInt) ?ramp = map (map PyInt) ?ramp
     \<and> (\<forall>c \<in> set ?ramp. \<forall>k \<in> set c. 0 \<le> k \<and> k \<le> 255)"
    by (rule conjI [OF refl])
  have r3: "length ?ramp = 256"
    by simp
  note thr = load_external_table [OF r1, of ?np resize_linear "''RAMP''" "blank_viewer 0" ?ramp]
  note thr' = thr [THEN conjunct2, THEN conjunct2, THEN conjunct2, THEN mp, OF r2,
      THEN conjunct1, THEN mp, OF r3]
  from thr' obtain t where t: "colormaps (load_lut_file ?np resize_linear
                        (''RAMP'', PyList (map PyTuple (map (map PyInt) ?ramp)))
                        (blank_viewer 0))
            = colormaps (blank_viewer 0) @ [(''RAMP'', Custom t)]"
      "nd_shape t = [256, 1, 3]" "\<forall>i < 256. map uint (lut_entry t i) = ?ramp ! i"
    by (elim exE conjE)
  have "map uint (lut_entry t 0) = [0, 255, 7]" "map uint (lut_entry t 5) = [5, 250, 7]"
    "map uint (lut_entry t 255) = [255, 0, 7]"
    using t(3) [rule_format, of 0] t(3) [rule_format, of 5] t(3) [rule_format, of 255]
    by simp_all
  then have 4: "\<exists>t. colormaps (load_lut_file ?np resize_linear
                        (''RAMP'', PyList (map PyTuple (map (map PyInt) ?ramp)))
                        (blank_viewer 0))
            = builtin_colormaps @ [(''RAMP'', Custom t)]
          \<and> nd_shape t = [256, 1, 3]
          \<and> map uint (lut_entry t 0) = [0, 255, 7]
          \<and> map uint (lut_entry t 5) = [5, 250, 7]
          \<and> map uint (lut_entry t 255) = [255, 0, 7]"
    using t(1,2) unfolding cm by (intro exI [of _ t] conjI)
  let ?two = "[[0, 10, 20], [200, 110, 120 :: int]]"
  have w1: "list_all (\<lambda>c. length c = 3) (map (map PyInt) ?two)"
    by simp
  have w2: "map (map PyInt) ?two = map (map PyInt) ?two
     \<and> (\<forall>c \<in> set ?two. \<forall>k \<in> set c. 0 \<le> k \<and> k \<le> 255)"
    by simp
  have w3: "length ?two \<noteq> 0 \<and> length ?two \<noteq> 256"
    by simp
  note thw = load_external_table [OF w1, of ?np resize_linear "''TWO''" "blank_viewer 0" ?two]
  note thw' = thw [THEN conjunct2, THEN conjunct2, THEN conjunct2, THEN mp, OF w2,
      THEN conjunct2, THEN mp, OF w3]
  from thw' obtain u where u: "colormaps (load_lut_file ?np resize_linear
                        (''TWO'', PyList (map PyTuple (map (map PyInt) ?two)))
                        (blank_viewer 0))
            = colormaps (blank_viewer 0) @ [(''TWO'', Custom u)]"
      "nd_shape u = [256, 1, 3]" "length (nd_flat u) = 768"
      "\<forall>j < 256. \<forall>c < 3.
         uint (lut_entry u j ! c) =
           (let fy = (real j + 1 / 2) * (real (length ?two) / 256) - 1 / 2
            in if fy < 0 then ?two ! 0 ! c
               else if real (length ?two) - 1 \<le> fy then ?two ! (length ?two - 1) ! c
               else \<lfloor>(1 - frac fy) * real_of_int (?two ! nat \<lfloor>fy\<rfloor> ! c)
                      + frac fy * real_of_int (?two ! (nat \<lfloor>fy\<rfloor> + 1) ! c) + 1 / 2\<rfloor>)"
    by (elim exE conjE)
  have fr: "frac (129 / 256 :: real) = 129 / 256" "\<lfloor>129 / 256 :: real\<rfloor> = 0"
    by (simp_all add: frac_def)
  have v0: "uint (lut_entry u 0 ! 0) = 0" "uint (lut_entry u 0 ! 1) = 10"
    "uint (lut_entry u 0 ! 2) = 20"
    using u(4) [rule_format, of 0 0] u(4) [rule_format, of 0 1] u(4) [rule_format, of 0 2]
    by (simp_all add: Let_def)
  have v128: "uint (lut_entry u 128 ! 0) = 101" "uint (lut_entry u 128 ! 1) = 60"
    "uint (lut_entry u 128 ! 2) = 70"
    using u(4) [rule_format, of 128 0] u(4) [rule_format, of 128 1]
      u(4) [rule_format, of 128 2]
    by (simp_all add: Let_def fr)
  have v255: "uint (lut_entry u 255 ! 0) = 200" "uint (lut_entry u 255 ! 1) = 110"
    "uint (lut_entry u 255 ! 2) = 120"
    using u(4) [rule_format, of 255 0] u(4) [rule_format, of 255 1]
      u(4) [rule_format, of 255 2]
    by (simp_all add: Let_def)
  have 5: "\<exists>t. colormaps (load_lut_file ?np resize_linear
                        (''TWO'', PyList (map PyTuple (map (map PyInt) ?two)))
                        (blank_viewer 0))
            = builtin_colormaps @ [(''TWO'', Custom t)]
          \<and> nd_shape t = [256, 1, 3] \<and> length (nd_flat t) = 768
          \<and> uint (lut_entry t 0 ! 0) = 0 \<and> uint (lut_entry t 0 ! 1) = 10
          \<and> uint (lut_entry t 0 ! 2) = 20
          \<and> uint (lut_entry t 128 ! 0) = 101 \<and> uint (lut_entry t 128 ! 1) = 60
          \<and> uint (lut_entry t 128 ! 2) = 70
          \<and> uint (lut_entry t 255 ! 0) = 200 \<and> uint (lut_entry t 255 ! 1) = 110
          \<and> uint (lut_entry t 255 ! 2) = 120"
    using u(1,2,3) v0 v128 v255 unfolding cm by (intro exI [of _ u] conjI)
  from 1 2 3 4 5 show ?thesis by (intro conjI)
qed

subsection \<open>The exit status\<close>

lemma initialize_display_completion:
  "fst (initialize_display_and_buttons st s) =
     (if pins_ok st \<and> control_pins_ok st \<and> spi_ok st \<and> driver_ok st then Returned
      else SystemExit 1)"
  by (simp add: initialize_display_and_buttons_def Let_def)

lemma initialize_camera_completion:
  "fst (initialize_camera st s) =
     (if uvc_init_res st < 0 then Raises (RuntimeError ''uvc_init error'')
      else if uvc_find_device_res st < 0 then Raises (RuntimeError ''uvc_find_device error'')
      else if uvc_open_res st < 0 then Raises (RuntimeError ''uvc_open error'')
      else if uvc_get_stream_ctrl_res st < 0
      then Raises (RuntimeError ''uvc_get_stream_ctrl_format_size failed'')
      else Returned)"
  by (simp add: initialize_camera_def Let_def)

lemma run_completion:
  "map_option fst (run cv st inputs s) =
     map_option (\<lambda>c. case c of Raises e \<Rightarrow> Returned | _ \<Rightarrow> c)
       (map_option fst
          (run_body cv st inputs
             (set_cpu_governor CPU_GOVERNOR_RUN (logging INFO ''Application run started.'' s))))"
  by (simp add: run_def Let_def split: option.splits completion.splits prod.splits)

lemma main_exit:
  "main cv st now inputs = map_option exit_code (map_option fst (run cv st inputs (init_viewer now)))"
  by (simp add: main_def option.map_comp comp_def)

lemma run_body_display_failure:
  assumes "\<not> (pins_ok st \<and> control_pins_ok st \<and> spi_ok st \<and> driver_ok st)"
  shows "map_option fst (run_body cv st inputs s) = Some (SystemExit 1)"
proof -
  obtain c s1 where i: "initialize_display_and_buttons st s = (c, s1)"
    by (cases "initialize_display_and_buttons st s")
  have "c = SystemExit 1"
    using initialize_display_completion [of st s] assms i by auto
  then show ?thesis
    by (simp add: run_body_def i)
qed

lemma run_body_camera_failure:
  assumes "pins_ok st \<and> control_pins_ok st \<and> spi_ok st \<and> driver_ok st"
    and "uvc_init_res st < 0 \<or> uvc_find_device_res st < 0 \<or> uvc_open_res st < 0
         \<or> uvc_get_stream_ctrl_res st < 0"
  shows "\<exists>e. map_option fst (run_body cv st inputs s) = Some (Raises e)"
proof -
  obtain c s1 where i: "initialize_display_and_buttons st s = (c, s1)"
    by (cases "initialize_display_and_buttons st s")
  have c: "c = Returned"
    using initialize_display_completion [of st s] assms(1) i by auto
  define s2 where "s2 = load_custom_luts (lut_cast st) (lut_resize st) (lut_files st) s1"
  obtain c' s3 where j: "initialize_camera st s2 = (c', s3)"
    by (cases "initialize_camera st s2")
  have "\<exists>e. c' = Raises e"
    using initialize_camera_completion [of st s2] assms(2) j by (auto split: if_splits)
  then show ?thesis
    by (auto simp: run_body_def i c j s2_def [symmetric])
qed

lemma main_display_failure:
  assumes "\<not> (pins_ok st \<and> control_pins_ok st \<and> spi_ok st \<and> driver_ok st)"
  shows "main cv st now inputs = Some 1"
  unfolding main_exit run_completion run_body_display_failure [OF assms]
  by (simp add: exit_code_def)

lemma main_camera_failure:
  assumes "pins_ok st \<and> control_pins_ok st \<and> spi_ok st \<and> driver_ok st"
    and "uvc_init_res st < 0 \<or> uvc_find_device_res st < 0 \<or> uvc_open_res st < 0
         \<or> uvc_get_stream_ctrl_res st < 0"
  shows "main cv st now inputs = Some 0"
proof -
  obtain e where h: "map_option fst
      (run_body cv st inputs
         (set_cpu_governor CPU_GOVERNOR_RUN
            (logging INFO ''Application run started.'' (init_viewer now)))) = Some (Raises e)"
    using run_body_camera_failure [OF assms] by blast
  show ?thesis
    unfolding main_exit run_completion h by (simp add: exit_code_def)
qed

lemma run_body_started:
  assumes "pins_ok st \<and> control_pins_ok st \<and> spi_ok st \<and> driver_ok st"
    and "0 \<le> uvc_init_res st \<and> 0 \<le> uvc_find_device_res st \<and> 0 \<le> uvc_open_res st
         \<and> 0 \<le> uvc_get_stream_ctrl_res st"
  shows "\<exists>s3. map_option fst (run_body cv st inputs s0) =
           map_option (\<lambda>r. Returned) (process_and_display cv st inputs s3)"
proof -
  obtain c s1 where i: "initialize_display_and_buttons st s0 = (c, s1)"
    by (cases "initialize_display_and_buttons st s0")
  have c: "c = Returned"
    using initialize_display_completion [of st s0] assms(1) i by auto
  define s2 where "s2 = load_custom_luts (lut_cast st) (lut_resize st) (lut_files st) s1"
  obtain c' s3 where j: "initialize_camera st s2 = (c', s3)"
    by (cases "initialize_camera st s2")
  have c': "c' = Returned"
    using initialize_camera_completion [of st s2] assms(2) j by (auto split: if_splits)
  have "map_option fst (run_body cv st inputs s0) =
          map_option (\<lambda>r. Returned) (process_and_display cv st inputs s3)"
    by (simp add: run_body_def i c j c' s2_def [symmetric] option.map_comp comp_def)
  then show ?thesis ..
qed

lemma main_clean_shutdown:
  assumes "pins_ok st \<and> control_pins_ok st \<and> spi_ok st \<and> driver_ok st"
    and "0 \<le> uvc_init_res st \<and> 0 \<le> uvc_find_device_res st \<and> 0 \<le> uvc_open_res st
         \<and> 0 \<le> uvc_get_stream_ctrl_res st"
    and "main cv st now inputs = Some code"
  shows "code = 0"
proof -
  define s0 where "s0 = set_cpu_governor CPU_GOVERNOR_RUN
            (logging INFO ''Application run started.'' (init_viewer now))"
  obtain s3 where h: "map_option fst (run_body cv st inputs s0) =
          map_option (\<lambda>r. Returned) (process_and_display cv st inputs s3)"
    using run_body_started [OF assms(1,2)] by blast
  show ?thesis
    using assms(3) unfolding main_exit run_completion s0_def [symmetric] h
    by (auto simp: exit_code_def option.map_comp comp_def)
qed

lemma viewer_loop_stopped: "\<not> is_running s \<Longrightarrow> viewer_loop cv inputs s = Some s"
  by (cases inputs) simp_all

lemma viewer_loop_interrupt: "\<exists>s'. viewer_loop cv (KeyboardInterrupt # rest) s = Some s'"
  by (cases "is_running s") (simp_all add: viewer_loop_stopped)

lemma process_and_display_interrupt:
  "\<exists>s'. process_and_display cv st (KeyboardInterrupt # rest) s = Some s'"
proof (cases "disp s")
  case True
  then show ?thesis
    unfolding process_and_display_def Let_def
    by (simp only: not_True_eq_False if_False) (rule viewer_loop_interrupt)
next
  case False
  then show ?thesis
    by (simp add: process_and_display_def)
qed

lemma main_interrupt:
  assumes "pins_ok st \<and> control_pins_ok st \<and> spi_ok st \<and> driver_ok st"
    and "0 \<le> uvc_init_res st \<and> 0 \<le> uvc_find_device_res st \<and> 0 \<le> uvc_open_res st
         \<and> 0 \<le> uvc_get_stream_ctrl_res st"
  shows "main cv st now (KeyboardInterrupt # rest) = Some 0"
proof -
  define s0 where "s0 = set_cpu_governor CPU_GOVERNOR_RUN
            (logging INFO ''Application run started.'' (init_viewer now))"
  obtain s3 where h: "map_option fst (run_body cv st (KeyboardInterrupt # rest) s0) =
          map_option (\<lambda>r. Returned) (process_and_display cv st (KeyboardInterrupt # rest) s3)"
    using run_body_started [OF assms] by blast
  obtain s' where p: "process_and_display cv st (KeyboardInterrupt # rest) s3 = Some s'"
    using process_and_display_interrupt by blast
  show ?thesis
    unfolding main_exit run_completion s0_def [symmetric] h p
    by (simp add: exit_code_def)
qed

text \<open>
  Claim C7, at the input where the code departs from it. The display starts up, but no
  camera is found: \<^verbatim>\<open>uvc_find_device\<close> returns a negative code. \<^verbatim>\<open>initialize_camera\<close>
  raises \<^verbatim>\<open>RuntimeError\<close>, \<^verbatim>\<open>run\<close> catches it, cleans up and returns, and the exit status
  of the script is 0. A failure of the display set-up, through \<^verbatim>\<open>exit(1)\<close>, gives 1; a run
  that starts up and is ended by a keyboard interrupt gives 0.
\<close>

theorem camera_failure_exit_status:
  "main \<lparr>uyvy_to_gray = (\<lambda>a. a), applyColorMap_id = (\<lambda>a c. gray2bgr a),
         applyColorMap_lut = (\<lambda>a l. Inr (gray2bgr a))\<rparr>
        \<lparr>pins_ok = True, control_pins_ok = True, spi_ok = True, driver_ok = True,
         lut_files = [], lut_cast = (\<lambda>v. Inl OverflowError),
         lut_resize = resize_linear, uvc_init_res = 0,
         uvc_find_device_res = - 1, uvc_open_res = 0, uvc_get_stream_ctrl_res = 0,
         first_start_res = 0, loop_start_time = 0, exit_stop_raises = False\<rparr>
        0 [] = Some 0
   \<and> main \<lparr>uyvy_to_gray = (\<lambda>a. a), applyColorMap_id = (\<lambda>a c. gray2bgr a),
           applyColorMap_lut = (\<lambda>a l. Inr (gray2bgr a))\<rparr>
          \<lparr>pins_ok = True, control_pins_ok = True, spi_ok = True, driver_ok = False,
           lut_files = [], lut_cast = (\<lambda>v. Inl OverflowError),
           lut_resize = resize_linear, uvc_init_res = 0,
           uvc_find_device_res = 0, uvc_open_res = 0, uvc_get_stream_ctrl_res = 0,
           first_start_res = 0, loop_start_time = 0, exit_stop_raises = False\<rparr>
          0 [] = Some 1
   \<and> main \<lparr>uyvy_to_gray = (\<lambda>a. a), applyColorMap_id = (\<lambda>a c. gray2bgr a),
           applyColorMap_lut = (\<lambda>a l. Inr (gray2bgr a))\<rparr>
          \<lparr>pins_ok = True, control_pins_ok = True, spi_ok = True, driver_ok = True,
           lut_files = [], lut_cast = (\<lambda>v. Inl OverflowError),
           lut_resize = resize_linear, uvc_init_res = 0,
           uvc_find_device_res = 0, uvc_open_res = 0, uvc_get_stream_ctrl_res = 0,
           first_start_res = 0, loop_start_time = 0, exit_stop_raises = False\<rparr>
          0 [KeyboardInterrupt] = Some 0"
  by (simp add: main_camera_failure main_display_failure main_interrupt)

end
